theory Spec2Isabelle
  imports Complex_Main "HOL-Library.AList" "HOL-Library.Log_Nat"
begin

section \<open>Python values and exceptions\<close>

text \<open>
  The notebook \<^verbatim>\<open>Code/model.ipynb\<close> defines two classes: \<^verbatim>\<open>Model\<close> (the formulation
  engine, cell 1) and \<^verbatim>\<open>Schedule\<close> (the assignment facade, cell 2). Every \<^verbatim>\<open>assert\<close>,
  \<^verbatim>\<open>raise\<close> and failing subscript of the source is a value of \<open>error\<close>; a function that can
  raise returns \<open>error + 'a\<close> with \<open>Inl\<close> for the exception.

  Numbers: counts \<^verbatim>\<open>N_T\<close>, \<^verbatim>\<open>N_D\<close>, modes and status codes are Python ints (\<open>int\<close>). The
  availability codes (0, 0.5, 1), floors, ceilings, fractions and weights are Python ints
  or floats; each is the rational that is its exact value. Comparisons of such numbers
  are exact in Python. The one place where the constructor computes with them before it
  compares, the test on the sum of the fractions, is evaluated in double precision as
  the interpreter does (section ``Floats'' below).
\<close>

datatype error =
    AssertionError
  | Exception string
  | IndexError
  | KeyError
  | ValueError
  | TypeError
  | ZeroDivisionError
  | GurobiError

definition bindE :: "error + 'a \<Rightarrow> ('a \<Rightarrow> error + 'b) \<Rightarrow> error + 'b" where
  "bindE r f = (case r of Inl e \<Rightarrow> Inl e | Inr x \<Rightarrow> f x)"

text \<open>A list comprehension whose element expression can raise: the first exception wins.\<close>

fun mapE :: "('a \<Rightarrow> error + 'b) \<Rightarrow> 'a list \<Rightarrow> error + 'b list" where
  "mapE f [] = Inr []"
| "mapE f (x # xs) =
     (case f x of Inl e \<Rightarrow> Inl e
      | Inr y \<Rightarrow> (case mapE f xs of Inl e \<Rightarrow> Inl e | Inr ys \<Rightarrow> Inr (y # ys)))"

text \<open>A list comprehension with a condition that can raise.\<close>

fun filterE :: "('a \<Rightarrow> error + bool) \<Rightarrow> 'a list \<Rightarrow> error + 'a list" where
  "filterE p [] = Inr []"
| "filterE p (x # xs) =
     (case p x of Inl e \<Rightarrow> Inl e
      | Inr b \<Rightarrow> (case filterE p xs of Inl e \<Rightarrow> Inl e
                 | Inr ys \<Rightarrow> Inr (if b then x # ys else ys)))"

text \<open>\<^verbatim>\<open>range(n)\<close> for a Python int \<open>n\<close>: empty when \<open>n \<le> 0\<close>.\<close>

definition py_range :: "int \<Rightarrow> nat list" where
  "py_range n = [0 ..< nat n]"

text \<open>\<^verbatim>\<open>xs[i]\<close> on a list, for an index taken from a \<^verbatim>\<open>range\<close>.\<close>

definition py_get :: "'a list \<Rightarrow> nat \<Rightarrow> error + 'a" where
  "py_get xs i = (if i < length xs then Inr (xs ! i) else Inl IndexError)"

text \<open>\<^verbatim>\<open>int(x)\<close> on a number: truncation towards zero.\<close>

definition py_int :: "rat \<Rightarrow> int" where
  "py_int r = (if 0 \<le> r then \<lfloor>r\<rfloor> else \<lceil>r\<rceil>)"

text \<open>\<^verbatim>\<open>sum([b for ...])\<close> over booleans counts the true ones.\<close>

definition count_true :: "bool list \<Rightarrow> int" where
  "count_true bs = int (length (filter (\<lambda>b. b) bs))"

section \<open>Floats\<close>

text \<open>
  The notebook records Python 3.11.8. Its floats are IEEE 754 binary64, and each \<^verbatim>\<open>+\<close>
  and \<^verbatim>\<open>-\<close> on floats returns the double nearest to the exact result, a tie going to the
  even significand; \<^verbatim>\<open>sum\<close> adds from the left, starting at the int 0 (the compensated
  summation of later versions is not in 3.11).

  \<open>binary64 x\<close> is the double nearest to the rational \<open>x\<close>: 53 significant bits, and
  multiples of \<open>2\<^sup>-\<^sup>1\<^sup>0\<^sup>7\<^sup>4\<close> below \<open>2\<^sup>-\<^sup>1\<^sup>0\<^sup>2\<^sup>2\<close>. \<open>binade x\<close> is the exponent \<open>e\<close> with
  \<open>2\<^sup>e \<le> |x| < 2\<^sup>e\<^sup>+\<^sup>1\<close>, read off the bit length of \<open>\<lfloor>|x|\<rfloor>\<close>, or of \<open>\<lceil>1/|x|\<rceil> - 1\<close>
  when \<open>|x| < 1\<close>. Overflow is not modelled: a result beyond the largest double is
  infinite in Python and stays finite here, and neither is below the tolerance of the
  test that uses these operations. An int is taken as the float of the same value, so
  the numbers are meant to be floats, or ints that a float holds exactly.
\<close>

definition pow2 :: "int \<Rightarrow> rat" where
  "pow2 e = (if 0 \<le> e then 2 ^ nat e else 1 / 2 ^ nat (- e))"

definition binade :: "rat \<Rightarrow> int" where
  "binade x =
     (if 1 \<le> \<bar>x\<bar> then bitlen \<lfloor>\<bar>x\<bar>\<rfloor> - 1 else - bitlen (\<lceil>1 / \<bar>x\<bar>\<rceil> - 1))"

definition round_half_even :: "rat \<Rightarrow> int" where
  "round_half_even q =
     (let f = \<lfloor>q\<rfloor>; r = q - of_int f
      in if r < 1 / 2 then f else if 1 / 2 < r then f + 1 else if even f then f else f + 1)"

definition binary64 :: "rat \<Rightarrow> rat" where
  "binary64 x =
     (if x = 0 then 0
      else (let k = max (binade x - 52) (- 1074)
            in of_int (round_half_even (x / pow2 k)) * pow2 k))"

text \<open>\<^verbatim>\<open>x + y\<close> and \<^verbatim>\<open>x - y\<close> on floats, and \<^verbatim>\<open>sum(xs)\<close> on a list of them.\<close>

definition fl_add :: "rat \<Rightarrow> rat \<Rightarrow> rat" where
  "fl_add x y = binary64 (x + y)"

definition fl_sub :: "rat \<Rightarrow> rat \<Rightarrow> rat" where
  "fl_sub x y = binary64 (x - y)"

definition fl_sum :: "rat list \<Rightarrow> rat" where
  "fl_sum xs = foldl fl_add 0 xs"

section \<open>Nested lists and \<^verbatim>\<open>Model.__unwrap_then_map\<close>\<close>

text \<open>
  A Python value that is either a list (of such values) or something that is not a list.
\<close>

datatype 'a nested = Leaf 'a | List "'a nested list"

text \<open>
  \<^verbatim>\<open>
  def __unwrap_then_map(x,f):
    if isinstance(x,list):
      return [Model.__unwrap_then_map(x_,f) for x_ in x]
    else:
      return f(x)
  \<close>
\<close>

fun unwrap_then_map :: "'a nested \<Rightarrow> ('a \<Rightarrow> 'b) \<Rightarrow> 'b nested" where
  "unwrap_then_map (List xs) f = List (map (\<lambda>y. unwrap_then_map y f) xs)"
| "unwrap_then_map (Leaf x) f = Leaf (f x)"

text \<open>The nesting structure of a value, and its leaves from left to right.\<close>

fun shape :: "'a nested \<Rightarrow> unit nested" where
  "shape (Leaf x) = Leaf ()"
| "shape (List xs) = List (map shape xs)"

fun leaves :: "'a nested \<Rightarrow> 'a list" where
  "leaves (Leaf x) = [x]"
| "leaves (List xs) = concat (map leaves xs)"

section \<open>Subscripts\<close>

text \<open>
  A selector of \<^verbatim>\<open>Model.__getitem__\<close>: an int, or a slice \<^verbatim>\<open>start:stop\<close> with optional
  bounds (\<open>Slice None None\<close> is \<^verbatim>\<open>:\<close>). Slices with a step are not modelled.
\<close>

datatype sel = Idx int | Slice "int option" "int option"

text \<open>A negative position counts from the end of a list of length \<open>n\<close>.\<close>

definition from_end :: "int \<Rightarrow> int \<Rightarrow> int" where
  "from_end n i = (if i < 0 then i + n else i)"

definition slice_bound :: "int \<Rightarrow> int option \<Rightarrow> int \<Rightarrow> int" where
  "slice_bound n b dflt =
     (case b of None \<Rightarrow> dflt | Some i \<Rightarrow> max 0 (min n (from_end n i)))"

definition py_slice :: "'a list \<Rightarrow> int option \<Rightarrow> int option \<Rightarrow> 'a list" where
  "py_slice xs start stop =
     (let n = int (length xs);
          lo = nat (slice_bound n start 0);
          hi = nat (slice_bound n stop n)
      in take (hi - lo) (drop lo xs))"

text \<open>
  \<^verbatim>\<open>x[sel]\<close>: a negative int counts from the end, an int out of range raises IndexError,
  a slice never raises, and a value that is not a list cannot be subscripted.
\<close>

fun py_subscript :: "'a nested \<Rightarrow> sel \<Rightarrow> error + 'a nested" where
  "py_subscript (List xs) (Idx i) =
     (if from_end (int (length xs)) i < 0 \<or> int (length xs) \<le> from_end (int (length xs)) i
      then Inl IndexError
      else Inr (xs ! nat (from_end (int (length xs)) i)))"
| "py_subscript (List xs) (Slice start stop) = Inr (List (py_slice xs start stop))"
| "py_subscript (Leaf x) sl = Inl TypeError"

section \<open>The external solver\<close>

text \<open>
  \<^verbatim>\<open>gurobipy\<close> is not part of the repository. Its model object is a record of what the
  engine puts into it: the variables (\<open>XP t d\<close> is the binary variable the source names
  \<^verbatim>\<open>xp_(t,d)\<close>, \<open>XV t d\<close> is \<^verbatim>\<open>xv_(t,d)\<close>), the constraints, the objective with its sense and
  the \<^verbatim>\<open>OutputFlag\<close> parameter; and of what \<^verbatim>\<open>optimize()\<close> leaves in it: the status code and
  the value \<^verbatim>\<open>.X\<close> of each variable. The search itself is a parameter
  \<open>solver\<close> of the engine's constructor: any function from the assembled program to a
  status code and values.
\<close>

datatype var = XP nat nat | XV nat nat

datatype expr =
    Const rat
  | V var
  | Add expr expr
  | Sub expr expr
  | Mul expr expr
  | Pow expr nat

datatype constr = Le expr expr | Ge expr expr | Eq expr expr

datatype sense = MINIMIZE | MAXIMIZE

record grb_model =
  vars :: "var list"
  constrs :: "constr list"
  objective :: "(expr \<times> sense) option"
  OutputFlag :: bool
  grb_status :: int
  X :: "var \<Rightarrow> rat"

type_synonym solver = "grb_model \<Rightarrow> int \<times> (var \<Rightarrow> rat)"

definition GRB_LOADED :: int where "GRB_LOADED = 1"
definition GRB_OPTIMAL :: int where "GRB_OPTIMAL = 2"
definition GRB_INFEASIBLE :: int where "GRB_INFEASIBLE = 3"

text \<open>\<^verbatim>\<open>gurobipy.Model("")\<close>\<close>

definition grb_new :: grb_model where
  "grb_new = \<lparr>vars = [], constrs = [], objective = None, OutputFlag = True,
              grb_status = GRB_LOADED, X = (\<lambda>v. 0)\<rparr>"

definition addVar :: "var \<Rightarrow> grb_model \<Rightarrow> grb_model" where
  "addVar v g = g\<lparr>vars := vars g @ [v]\<rparr>"

definition addConstr :: "constr \<Rightarrow> grb_model \<Rightarrow> grb_model" where
  "addConstr c g = g\<lparr>constrs := constrs g @ [c]\<rparr>"

definition setObjective :: "expr \<Rightarrow> sense \<Rightarrow> grb_model \<Rightarrow> grb_model" where
  "setObjective e sn g = g\<lparr>objective := Some (e, sn)\<rparr>"

definition optimize :: "solver \<Rightarrow> grb_model \<Rightarrow> grb_model" where
  "optimize solver g = g\<lparr>grb_status := fst (solver g), X := snd (solver g)\<rparr>"

text \<open>The meaning of an expression and of a constraint under values of the variables.\<close>

fun eval :: "(var \<Rightarrow> rat) \<Rightarrow> expr \<Rightarrow> rat" where
  "eval \<sigma> (Const c) = c"
| "eval \<sigma> (V v) = \<sigma> v"
| "eval \<sigma> (Add e1 e2) = eval \<sigma> e1 + eval \<sigma> e2"
| "eval \<sigma> (Sub e1 e2) = eval \<sigma> e1 - eval \<sigma> e2"
| "eval \<sigma> (Mul e1 e2) = eval \<sigma> e1 * eval \<sigma> e2"
| "eval \<sigma> (Pow e n) = eval \<sigma> e ^ n"

fun holds :: "(var \<Rightarrow> rat) \<Rightarrow> constr \<Rightarrow> bool" where
  "holds \<sigma> (Le e1 e2) = (eval \<sigma> e1 \<le> eval \<sigma> e2)"
| "holds \<sigma> (Ge e1 e2) = (eval \<sigma> e1 \<ge> eval \<sigma> e2)"
| "holds \<sigma> (Eq e1 e2) = (eval \<sigma> e1 = eval \<sigma> e2)"

text \<open>\<^verbatim>\<open>sum(es)\<close> on solver expressions starts from the int 0.\<close>

definition py_sum :: "expr list \<Rightarrow> expr" where
  "py_sum es = foldl Add (Const 0) es"

section \<open>The formulation engine: class \<^verbatim>\<open>Model\<close>\<close>

definition VALIDATE :: bool where "VALIDATE = True"

definition IN_PERSON :: int where "IN_PERSON = 0"
definition VIRTUAL :: int where "VIRTUAL = 1"

definition UNAVAILABLE :: rat where "UNAVAILABLE = 0"
definition NOT_PREFERRED :: rat where "NOT_PREFERRED = 1 / 2"
definition PREFERRED :: rat where "PREFERRED = 1"

definition PREFER_VIRTUAL :: rat where "PREFER_VIRTUAL = - 1"
definition NO_PREFERENCE :: rat where "NO_PREFERENCE = 0"
definition PREFER_IN_PERSON :: rat where "PREFER_IN_PERSON = 1"

definition LOADING :: int where "LOADING = 0"
definition OPTIMAL :: int where "OPTIMAL = 1"
definition INFEASIBLE :: int where "INFEASIBLE = 2"

text \<open>
  The instance attributes \<^verbatim>\<open>self.model\<close>, \<^verbatim>\<open>self.status\<close>, \<^verbatim>\<open>self.N_T\<close>, \<^verbatim>\<open>self.N_D\<close>,
  \<^verbatim>\<open>self.__xp\<close> and \<^verbatim>\<open>self.__xv\<close>. The two matrices are lists of lists of variables.
\<close>

record Model =
  model :: grb_model
  status :: int
  N_T :: int
  N_D :: int
  xp :: "var nested"
  xv :: "var nested"

text \<open>
  What \<^verbatim>\<open>__getitem__\<close> returns: \<^verbatim>\<open>None\<close>, the literal \<^verbatim>\<open>[]\<close>, variable handles (while
  LOADING) or their integer values.
\<close>

datatype item = PyNone | Empty | Handles "var nested" | Values "int nested"

text \<open>
  \<^verbatim>\<open>
  def __getitem__(self,idx):
    mode,tutors,days = idx
    assert mode==Model.IN_PERSON or mode==Model.VIRTUAL
    if self.status==Model.INFEASIBLE:
      return None
    rows = self.__xp[tutors] if mode==Model.IN_PERSON else self.__xv[tutors]
    if len(rows)==0:
      return []
    elif not isinstance(rows[0],list):
      return rows[days] if self.status==Model.LOADING
             else Model.__unwrap_then_map(rows[days],lambda x: int(x.X))
    return [row[days] for row in rows] if self.status==Model.LOADING
           else Model.__unwrap_then_map([row[days] for row in rows],lambda x: int(x.X))
  \<close>
  \<^verbatim>\<open>len(rows)\<close> on a variable (not a list) is a TypeError.
\<close>

definition resolve :: "Model \<Rightarrow> var nested \<Rightarrow> item" where
  "resolve self r =
     (if status self = LOADING then Handles r
      else Values (unwrap_then_map r (\<lambda>x. py_int (X (model self) x))))"

definition getitem :: "Model \<Rightarrow> int \<times> sel \<times> sel \<Rightarrow> error + item" where
  "getitem self idx =
     (case idx of (mode, tutors, days) \<Rightarrow>
        if \<not> (mode = IN_PERSON \<or> mode = VIRTUAL) then Inl AssertionError
        else if status self = INFEASIBLE then Inr PyNone
        else
          (case py_subscript (if mode = IN_PERSON then xp self else xv self) tutors of
             Inl e \<Rightarrow> Inl e
           | Inr (Leaf x) \<Rightarrow> Inl TypeError
           | Inr (List []) \<Rightarrow> Inr Empty
           | Inr (List (Leaf x # rs)) \<Rightarrow>
               (case py_subscript (List (Leaf x # rs)) days of
                  Inl e \<Rightarrow> Inl e
                | Inr r \<Rightarrow> Inr (resolve self r))
           | Inr (List (List r0 # rs)) \<Rightarrow>
               (case mapE (\<lambda>row. py_subscript row days) (List r0 # rs) of
                  Inl e \<Rightarrow> Inl e
                | Inr r \<Rightarrow> Inr (resolve self (List r)))))"

subsection \<open>Assembling the program\<close>

text \<open>
  The constructor mutates the engine object step by step and can raise in the middle. A
  step takes the object and returns it as the step leaves it, with the exception if one
  was raised.
\<close>

type_synonym step = "Model \<Rightarrow> error option \<times> Model"

definition andThen :: "step \<Rightarrow> step \<Rightarrow> step" where
  "andThen f g self =
     (case f self of (Some e, self') \<Rightarrow> (Some e, self') | (None, self') \<Rightarrow> g self')"

fun forEach :: "'a list \<Rightarrow> ('a \<Rightarrow> step) \<Rightarrow> step" where
  "forEach [] body self = (None, self)"
| "forEach (x # xs) body self = andThen (body x) (forEach xs body) self"

text \<open>\<^verbatim>\<open>self.model.addConstr(c)\<close> where evaluating the argument \<open>c\<close> can raise.\<close>

definition addConstrE :: "(Model \<Rightarrow> error + constr) \<Rightarrow> step" where
  "addConstrE c self =
     (case c self of Inl e \<Rightarrow> (Some e, self)
      | Inr k \<Rightarrow> (None, self\<lparr>model := addConstr k (model self)\<rparr>))"

text \<open>
  The arithmetic of the solver library on what the indexer returned. While the program
  is assembled the status is LOADING and the indexer returns handles: one handle is an
  operand of \<^verbatim>\<open>+\<close>, \<^verbatim>\<open>-\<close>, \<^verbatim>\<open>==\<close>, and a list of handles is summed by \<^verbatim>\<open>sum\<close>. Any other
  operand is not what the library's operators accept; the model raises TypeError there.
\<close>

fun handle :: "item \<Rightarrow> error + expr" where
  "handle (Handles (Leaf v)) = Inr (V v)"
| "handle it = Inl TypeError"

fun leaf_expr :: "var nested \<Rightarrow> error + expr" where
  "leaf_expr (Leaf v) = Inr (V v)"
| "leaf_expr (List xs) = Inl TypeError"

fun handle_sum :: "item \<Rightarrow> error + expr" where
  "handle_sum (Handles (List xs)) = bindE (mapE leaf_expr xs) (\<lambda>es. Inr (py_sum es))"
| "handle_sum Empty = Inr (Const 0)"
| "handle_sum it = Inl TypeError"

text \<open>\<^verbatim>\<open>a[t][d]\<close> on a list of lists, and \<^verbatim>\<open>self.__xp[t][d]\<close> on a matrix of variables.\<close>

definition py_get2 :: "'a list list \<Rightarrow> nat \<Rightarrow> nat \<Rightarrow> error + 'a" where
  "py_get2 a t d = bindE (py_get a t) (\<lambda>row. py_get row d)"

definition cell :: "var nested \<Rightarrow> nat \<Rightarrow> nat \<Rightarrow> error + expr" where
  "cell mat t d =
     bindE (py_subscript mat (Idx (int t))) (\<lambda>row.
     bindE (py_subscript row (Idx (int d))) leaf_expr)"

text \<open>
  \<^verbatim>\<open>
  def __set_decision_variables(self,N_T,N_D):
    if Model.__VALIDATE:
      assert N_T>0
      assert N_D>0
    self.__xp = [[self.model.addVar(vtype=gurobipy.GRB.BINARY,name=f"xp_({t},{d})")
                  for d in range(N_D)] for t in range(N_T)]
    self.__xv = [[self.model.addVar(vtype=gurobipy.GRB.BINARY,name=f"xv_({t},{d})")
                  for d in range(N_D)] for t in range(N_T)]
  \<close>
\<close>

definition var_matrix :: "(nat \<Rightarrow> nat \<Rightarrow> var) \<Rightarrow> int \<Rightarrow> int \<Rightarrow> var list list" where
  "var_matrix mk NT ND = map (\<lambda>t. map (\<lambda>d. mk t d) (py_range ND)) (py_range NT)"

definition as_nested :: "'a list list \<Rightarrow> 'a nested" where
  "as_nested rows = List (map (\<lambda>row. List (map Leaf row)) rows)"

definition set_decision_variables :: "int \<Rightarrow> int \<Rightarrow> step" where
  "set_decision_variables NT ND self =
     (if VALIDATE \<and> \<not> NT > 0 then (Some AssertionError, self)
      else if VALIDATE \<and> \<not> ND > 0 then (Some AssertionError, self)
      else
        (let vp = var_matrix XP NT ND;
             self1 = self\<lparr>model := fold addVar (concat vp) (model self), xp := as_nested vp\<rparr>;
             vv = var_matrix XV NT ND;
             self2 = self1\<lparr>model := fold addVar (concat vv) (model self1), xv := as_nested vv\<rparr>
         in (None, self2)))"

text \<open>
  The assertions at the head of \<^verbatim>\<open>__set_constraints\<close>, in their order:
  \<^verbatim>\<open>
      assert lp>=0
      assert lv>=0
      assert s>=0
      assert sp>=0
      assert len(S)==N_T
      assert sum([S_t>=0 for S_t in S])==N_T
      assert len(a)==N_T
      assert sum([len(row)==N_D for row in a])==N_T
      assert sum([a[t][d] in (Model.UNAVAILABLE,Model.NOT_PREFERRED,Model.PREFERRED)
                  for t in range(N_T) for d in range(N_D)])==N_T*N_D
  \<close>
\<close>

definition is_level :: "rat \<Rightarrow> bool" where
  "is_level x = (x = UNAVAILABLE \<or> x = NOT_PREFERRED \<or> x = PREFERRED)"

definition cells :: "int \<Rightarrow> int \<Rightarrow> (nat \<times> nat) list" where
  "cells NT ND = List.product (py_range NT) (py_range ND)"

definition validate_constraints ::
  "int \<Rightarrow> int \<Rightarrow> rat \<Rightarrow> rat \<Rightarrow> rat \<Rightarrow> rat \<Rightarrow> rat list \<Rightarrow> rat list list \<Rightarrow> error option" where
  "validate_constraints NT ND lp lv s sp S a =
     (if \<not> lp \<ge> 0 then Some AssertionError
      else if \<not> lv \<ge> 0 then Some AssertionError
      else if \<not> s \<ge> 0 then Some AssertionError
      else if \<not> sp \<ge> 0 then Some AssertionError
      else if \<not> int (length S) = NT then Some AssertionError
      else if \<not> count_true (map (\<lambda>S_t. S_t \<ge> 0) S) = NT then Some AssertionError
      else if \<not> int (length a) = NT then Some AssertionError
      else if \<not> count_true (map (\<lambda>row. int (length row) = ND) a) = NT
        then Some AssertionError
      else
        (case mapE (\<lambda>(t, d). bindE (py_get2 a t d) (\<lambda>x. Inr (is_level x))) (cells NT ND) of
           Inl e \<Rightarrow> Some e
         | Inr bs \<Rightarrow> if \<not> count_true bs = NT * ND then Some AssertionError else None))"

text \<open>
  The body of \<^verbatim>\<open>for d in range(N_D)\<close> inside the loop over the tutors:
  \<^verbatim>\<open>
        if a[t][d]==Model.UNAVAILABLE:
          self.model.addConstr(self[Model.IN_PERSON,t,d]==0)
          self.model.addConstr(self[Model.VIRTUAL,t,d]==0)
        else:
          self.model.addConstr(self[Model.IN_PERSON,t,d]+self[Model.VIRTUAL,t,d]<=1)
  \<close>
\<close>

definition day_step :: "rat list list \<Rightarrow> nat \<Rightarrow> nat \<Rightarrow> step" where
  "day_step a t d self =
     (case py_get2 a t d of
        Inl e \<Rightarrow> (Some e, self)
      | Inr a_td \<Rightarrow>
          if a_td = UNAVAILABLE then
            andThen
              (addConstrE (\<lambda>self.
                 bindE (bindE (getitem self (IN_PERSON, Idx (int t), Idx (int d))) handle)
                   (\<lambda>e. Inr (Eq e (Const 0)))))
              (addConstrE (\<lambda>self.
                 bindE (bindE (getitem self (VIRTUAL, Idx (int t), Idx (int d))) handle)
                   (\<lambda>e. Inr (Eq e (Const 0))))) self
          else
            addConstrE (\<lambda>self.
              bindE (bindE (getitem self (IN_PERSON, Idx (int t), Idx (int d))) handle) (\<lambda>e1.
              bindE (bindE (getitem self (VIRTUAL, Idx (int t), Idx (int d))) handle) (\<lambda>e2.
              Inr (Le (Add e1 e2) (Const 1))))) self)"

text \<open>
  The body of \<^verbatim>\<open>for t in range(N_T)\<close>:
  \<^verbatim>\<open>
      Xp_t, Xv_t = sum(self[Model.IN_PERSON,t,:]), sum(self[Model.VIRTUAL,t,:])
      self.model.addConstr(Xp_t+Xv_t<=S[t])
      self.model.addConstr(Xp_t+Xv_t>=s)
      self.model.addConstr(Xp_t>=sp)
      for d in range(N_D): ...
  \<close>
\<close>

definition tutor_step :: "rat \<Rightarrow> rat \<Rightarrow> rat list \<Rightarrow> rat list list \<Rightarrow> int \<Rightarrow> nat \<Rightarrow> step" where
  "tutor_step s sp S a ND t self =
     (case bindE (getitem self (IN_PERSON, Idx (int t), Slice None None)) handle_sum of
        Inl e \<Rightarrow> (Some e, self)
      | Inr Xp_t \<Rightarrow>
     (case bindE (getitem self (VIRTUAL, Idx (int t), Slice None None)) handle_sum of
        Inl e \<Rightarrow> (Some e, self)
      | Inr Xv_t \<Rightarrow>
          andThen (addConstrE (\<lambda>self. bindE (py_get S t) (\<lambda>S_t.
                     Inr (Le (Add Xp_t Xv_t) (Const S_t)))))
         (andThen (addConstrE (\<lambda>self. Inr (Ge (Add Xp_t Xv_t) (Const s))))
         (andThen (addConstrE (\<lambda>self. Inr (Ge Xp_t (Const sp))))
                  (forEach (py_range ND) (day_step a t)))) self))"

text \<open>
  The body of the second loop \<^verbatim>\<open>for d in range(N_D)\<close>:
  \<^verbatim>\<open>
      self.model.addConstr(sum(self[Model.IN_PERSON,:,d])>=lp)
      self.model.addConstr(sum(self[Model.VIRTUAL,:,d])>=lv)
  \<close>
\<close>

definition coverage_step :: "rat \<Rightarrow> rat \<Rightarrow> nat \<Rightarrow> step" where
  "coverage_step lp lv d =
     andThen
       (addConstrE (\<lambda>self.
          bindE (bindE (getitem self (IN_PERSON, Slice None None, Idx (int d))) handle_sum)
            (\<lambda>e. Inr (Ge e (Const lp)))))
       (addConstrE (\<lambda>self.
          bindE (bindE (getitem self (VIRTUAL, Slice None None, Idx (int d))) handle_sum)
            (\<lambda>e. Inr (Ge e (Const lv)))))"

definition set_constraints ::
  "rat \<Rightarrow> rat \<Rightarrow> rat \<Rightarrow> rat \<Rightarrow> rat list \<Rightarrow> rat list list \<Rightarrow> step" where
  "set_constraints lp lv s sp S a self =
     (let NT = N_T self; ND = N_D self in
      case (if VALIDATE then validate_constraints NT ND lp lv s sp S a else None) of
        Some e \<Rightarrow> (Some e, self)
      | None \<Rightarrow>
          andThen (forEach (py_range NT) (tutor_step s sp S a ND))
                  (forEach (py_range ND) (coverage_step lp lv)) self)"

text \<open>
  The assertions at the head of \<^verbatim>\<open>__set_objective_function\<close>, with
  \<^verbatim>\<open>epsilon = 10**-3\<close>:
  \<^verbatim>\<open>
      assert len(m)==N_T
      assert sum([m_t in (Model.PREFER_VIRTUAL,Model.NO_PREFERENCE,Model.PREFER_IN_PERSON)
                  for m_t in m])==N_T
      assert len(fp)==N_D
      assert sum([0<=f for f in fp])==N_D
      assert len(fv)==N_D
      assert sum([0<=f for f in fv])==N_D
      assert abs(1-sum(fp)-sum(fv))<epsilon
      assert w1>=0
      assert w2>=0
      assert w3>=0
      assert w4>=0
  \<close>
\<close>

text \<open>
  \<^verbatim>\<open>10**-3\<close> is a float power; its value is the double nearest to 1/1000, the same as
  the literal \<^verbatim>\<open>0.001\<close>. The test \<^verbatim>\<open>abs(1-sum(fp)-sum(fv))<epsilon\<close> rounds after each sum
  and after each of the two subtractions; \<^verbatim>\<open>abs\<close> and \<^verbatim>\<open><\<close> are exact.
\<close>

definition epsilon :: rat where "epsilon = binary64 (1 / 1000)"

definition fraction_sum_ok :: "rat list \<Rightarrow> rat list \<Rightarrow> bool" where
  "fraction_sum_ok fp fv = (\<bar>fl_sub (fl_sub 1 (fl_sum fp)) (fl_sum fv)\<bar> < epsilon)"

definition is_mode_pref :: "rat \<Rightarrow> bool" where
  "is_mode_pref m_t = (m_t = PREFER_VIRTUAL \<or> m_t = NO_PREFERENCE \<or> m_t = PREFER_IN_PERSON)"

definition validate_objective ::
  "int \<Rightarrow> int \<Rightarrow> rat list \<Rightarrow> rat list \<Rightarrow> rat list \<Rightarrow> rat \<Rightarrow> rat \<Rightarrow> rat \<Rightarrow> rat \<Rightarrow> error option" where
  "validate_objective NT ND m fp fv w1 w2 w3 w4 =
     (if \<not> int (length m) = NT then Some AssertionError
      else if \<not> count_true (map is_mode_pref m) = NT then Some AssertionError
      else if \<not> int (length fp) = ND then Some AssertionError
      else if \<not> count_true (map (\<lambda>f. 0 \<le> f) fp) = ND then Some AssertionError
      else if \<not> int (length fv) = ND then Some AssertionError
      else if \<not> count_true (map (\<lambda>f. 0 \<le> f) fv) = ND then Some AssertionError
      else if \<not> fraction_sum_ok fp fv then Some AssertionError
      else if \<not> w1 \<ge> 0 then Some AssertionError
      else if \<not> w2 \<ge> 0 then Some AssertionError
      else if \<not> w3 \<ge> 0 then Some AssertionError
      else if \<not> w4 \<ge> 0 then Some AssertionError
      else None)"

text \<open>
  The objective, term by term:
  \<^verbatim>\<open>
    x = [[self[Model.IN_PERSON,t,d]+self[Model.VIRTUAL,t,d] for d in range(N_D)]
         for t in range(N_T)]
    X = sum([x[t][d] for t in range(N_T) for d in range(N_D)])
    ALIGN = -1/N_T*sum([(X*fp[d]-sum(self[Model.IN_PERSON,:,d]))**2
                        +(X*fv[d]-sum(self[Model.VIRTUAL,:,d]))**2 for d in range(N_D)])
    DAY_PREF = -3*X+4*sum([a[t][d]*x[t][d] for t in range(N_T) for d in range(N_D)])
    MODE_PREF = sum([(self.__xp[t][d]-self.__xv[t][d])*m[t]
                     for t in range(N_T) for d in range(N_D)])
    self.model.setObjective(w1*X+w2*ALIGN+w3*DAY_PREF+w4*MODE_PREF,gurobipy.GRB.MAXIMIZE)
  \<close>
  \<^verbatim>\<open>-1/N_T\<close> is \<^verbatim>\<open>(-1)/N_T\<close>, a true division that raises for \<^verbatim>\<open>N_T = 0\<close>.
\<close>

definition x_matrix :: "Model \<Rightarrow> error + expr list list" where
  "x_matrix self =
     mapE (\<lambda>t. mapE (\<lambda>d.
       bindE (bindE (getitem self (IN_PERSON, Idx (int t), Idx (int d))) handle) (\<lambda>e1.
       bindE (bindE (getitem self (VIRTUAL, Idx (int t), Idx (int d))) handle) (\<lambda>e2.
       Inr (Add e1 e2)))) (py_range (N_D self))) (py_range (N_T self))"

definition align_term :: "Model \<Rightarrow> expr \<Rightarrow> rat list \<Rightarrow> rat list \<Rightarrow> nat \<Rightarrow> error + expr" where
  "align_term self Xs fp fv d =
     bindE (py_get fp d) (\<lambda>fp_d.
     bindE (bindE (getitem self (IN_PERSON, Slice None None, Idx (int d))) handle_sum) (\<lambda>sp_d.
     bindE (py_get fv d) (\<lambda>fv_d.
     bindE (bindE (getitem self (VIRTUAL, Slice None None, Idx (int d))) handle_sum) (\<lambda>sv_d.
     Inr (Add (Pow (Sub (Mul Xs (Const fp_d)) sp_d) 2)
              (Pow (Sub (Mul Xs (Const fv_d)) sv_d) 2))))))"

definition objective_expr ::
  "Model \<Rightarrow> rat list list \<Rightarrow> rat list \<Rightarrow> rat list \<Rightarrow> rat list \<Rightarrow>
   rat \<Rightarrow> rat \<Rightarrow> rat \<Rightarrow> rat \<Rightarrow> error + expr" where
  "objective_expr self a m fp fv w1 w2 w3 w4 =
     (let NT = N_T self; ND = N_D self in
      bindE (x_matrix self) (\<lambda>x.
      bindE (mapE (\<lambda>(t, d). py_get2 x t d) (cells NT ND)) (\<lambda>xs.
      let Xs = py_sum xs in
      bindE (if NT = 0 then Inl ZeroDivisionError else Inr (Const (- 1 / of_int NT))) (\<lambda>c.
      bindE (mapE (align_term self Xs fp fv) (py_range ND)) (\<lambda>devs.
      let ALIGN = Mul c (py_sum devs) in
      bindE (mapE (\<lambda>(t, d). bindE (py_get2 a t d) (\<lambda>a_td. bindE (py_get2 x t d) (\<lambda>x_td.
               Inr (Mul (Const a_td) x_td)))) (cells NT ND)) (\<lambda>ps.
      let DAY_PREF = Add (Mul (Const (- 3)) Xs) (Mul (Const 4) (py_sum ps)) in
      bindE (mapE (\<lambda>(t, d). bindE (cell (xp self) t d) (\<lambda>p. bindE (cell (xv self) t d) (\<lambda>v.
               bindE (py_get m t) (\<lambda>m_t. Inr (Mul (Sub p v) (Const m_t))))))
               (cells NT ND)) (\<lambda>ms.
      let MODE_PREF = py_sum ms in
      Inr (Add (Add (Add (Mul (Const w1) Xs) (Mul (Const w2) ALIGN))
                    (Mul (Const w3) DAY_PREF))
               (Mul (Const w4) MODE_PREF)))))))))"

definition set_objective_function ::
  "rat list list \<Rightarrow> rat list \<Rightarrow> rat list \<Rightarrow> rat list \<Rightarrow> rat \<Rightarrow> rat \<Rightarrow> rat \<Rightarrow> rat \<Rightarrow> step" where
  "set_objective_function a m fp fv w1 w2 w3 w4 self =
     (case (if VALIDATE then validate_objective (N_T self) (N_D self) m fp fv w1 w2 w3 w4
            else None) of
        Some e \<Rightarrow> (Some e, self)
      | None \<Rightarrow>
          (case objective_expr self a m fp fv w1 w2 w3 w4 of
             Inl e \<Rightarrow> (Some e, self)
           | Inr e \<Rightarrow> (None, self\<lparr>model := setObjective e MAXIMIZE (model self)\<rparr>)))"

text \<open>
  \<^verbatim>\<open>
  def __solve(self):
    self.model.setParam("OutputFlag",False)
    self.model.optimize()
    self.status = Model.OPTIMAL if self.model.status==gurobipy.GRB.OPTIMAL
                  else Model.INFEASIBLE
  \<close>
\<close>

definition solve :: "solver \<Rightarrow> step" where
  "solve solver self =
     (let g = optimize solver ((model self)\<lparr>OutputFlag := False\<rparr>)
      in (None, self\<lparr>model := g,
                     status := (if grb_status g = GRB_OPTIMAL then OPTIMAL else INFEASIBLE)\<rparr>))"

text \<open>
  \<^verbatim>\<open>Model.__init__\<close>. The result is the engine object as the constructor leaves it, and the
  exception if it raised. Before \<^verbatim>\<open>__set_decision_variables\<close> the attributes \<^verbatim>\<open>__xp\<close> and
  \<^verbatim>\<open>__xv\<close> do not exist; the record holds empty lists there.
  \<^verbatim>\<open>
    self.model = gurobipy.Model("")
    self.status = Model.LOADING
    self.N_T, self.N_D = N_T, N_D
    self.__set_decision_variables(N_T,N_D)
    self.__set_constraints(lp,lv,s,sp,S,a)
    self.__set_objective_function(a,m,fp,fv,w1,w2,w3,w4)
    self.__solve()
  \<close>
\<close>

definition Model_init ::
  "int \<Rightarrow> int \<Rightarrow> rat \<Rightarrow> rat \<Rightarrow> rat list \<Rightarrow> rat \<Rightarrow> rat \<Rightarrow> rat list list \<Rightarrow> rat list \<Rightarrow>
   rat list \<Rightarrow> rat list \<Rightarrow> rat \<Rightarrow> rat \<Rightarrow> rat \<Rightarrow> rat \<Rightarrow> solver \<Rightarrow> error option \<times> Model" where
  "Model_init NT ND lp lv S s sp a m fp fv w1 w2 w3 w4 solver =
     (let self = \<lparr>model = grb_new, status = LOADING, N_T = NT, N_D = ND,
                  xp = List [], xv = List []\<rparr>
      in andThen (set_decision_variables NT ND)
        (andThen (set_constraints lp lv s sp S a)
        (andThen (set_objective_function a m fp fv w1 w2 w3 w4)
                 (solve solver))) self)"

section \<open>The assignment facade: class \<^verbatim>\<open>Schedule\<close>\<close>

text \<open>
  Tutor and day identifiers are strings. The dictionaries a caller passes are partial
  maps, and a missing key raises KeyError. The two index tables the facade builds are
  dictionaries built by a comprehension; they are association lists in insertion order,
  so that \<^verbatim>\<open>len(d.keys())\<close> is the length of the list.
\<close>

definition py_lookup :: "('k \<rightharpoonup> 'v) \<Rightarrow> 'k \<Rightarrow> error + 'v" where
  "py_lookup d k = (case d k of None \<Rightarrow> Inl KeyError | Some v \<Rightarrow> Inr v)"

text \<open>\<^verbatim>\<open>xs.index(x)\<close>: the first position of \<open>x\<close>, ValueError when there is none.\<close>

fun list_index :: "'a list \<Rightarrow> 'a \<Rightarrow> error + nat" where
  "list_index [] x = Inl ValueError"
| "list_index (y # ys) x =
     (if y = x then Inr 0 else bindE (list_index ys x) (\<lambda>i. Inr (Suc i)))"

text \<open>\<^verbatim>\<open>{k: v for ...}\<close>: a later pair with a key already present replaces its value.\<close>

definition dict_comp :: "('k \<times> 'v) list \<Rightarrow> ('k \<times> 'v) list" where
  "dict_comp kvs = fold (\<lambda>(k, v) d. AList.update k v d) kvs []"

text \<open>\<^verbatim>\<open>{tutor:self.tutors.index(tutor) for tutor in self.tutors}\<close>\<close>

definition index_table :: "'k list \<Rightarrow> error + ('k \<times> nat) list" where
  "index_table xs =
     bindE (mapE (\<lambda>x. bindE (list_index xs x) (\<lambda>i. Inr (x, i))) xs)
       (\<lambda>kvs. Inr (dict_comp kvs))"

definition EITHER :: int where "EITHER = max IN_PERSON VIRTUAL + 1"

text \<open>
  The attributes \<^verbatim>\<open>self.tutors\<close>, \<^verbatim>\<open>self.__tutor_index\<close>, \<^verbatim>\<open>self.days\<close>,
  \<^verbatim>\<open>self.__day_index\<close> and \<^verbatim>\<open>self.__model\<close> (here \<open>engine\<close>).
\<close>

record Schedule =
  tutors :: "string list"
  tutor_index :: "(string \<times> nat) list"
  days :: "string list"
  day_index :: "(string \<times> nat) list"
  engine :: Model

text \<open>
  \<^verbatim>\<open>Schedule.__init__\<close>: the two duplicate checks, then the keyword arguments of
  \<^verbatim>\<open>Model(...)\<close> in the order they are written, then the engine's constructor.
  \<^verbatim>\<open>
    self.tutors = [tutor for tutor in tutors]
    self.__tutor_index = {tutor:self.tutors.index(tutor) for tutor in self.tutors}
    assert len(self.__tutor_index.keys())==len(self.tutors)  # no repeated tutors
    self.days = [day for day in days]
    self.__day_index = {day:self.days.index(day) for day in self.days}
    assert len(self.__day_index.keys())==len(self.days)  # no repeated days
    self.__model = Model(
      N_T=len(self.tutors), N_D=len(self.days),
      lp=min_tutors_ip, lv=min_tutors_v, s=min_tutor_shifts, sp=min_tutor_ip_shifts,
      S=[max_shifts_by_tutor[tutor] for tutor in self.tutors],
      m=[mode_preference[tutor] for tutor in self.tutors],
      a=[[availability[tutor][day] for day in self.days] for tutor in self.tutors],
      fp=[target_ip_fractions[day] for day in self.days],
      fv=[target_v_fractions[day] for day in self.days],
      w1=SHIFTS_weight, w2=ALIGN_weight, w3=DAY_PREF_weight, w4=MODE_PREF_weight)
  \<close>
\<close>

definition Schedule_init ::
  "string list \<Rightarrow> string list \<Rightarrow> rat \<Rightarrow> rat \<Rightarrow> rat \<Rightarrow> rat \<Rightarrow>
   (string \<rightharpoonup> rat) \<Rightarrow> (string \<rightharpoonup> rat) \<Rightarrow> (string \<rightharpoonup> (string \<rightharpoonup> rat)) \<Rightarrow>
   (string \<rightharpoonup> rat) \<Rightarrow> (string \<rightharpoonup> rat) \<Rightarrow> rat \<Rightarrow> rat \<Rightarrow> rat \<Rightarrow> rat \<Rightarrow> solver \<Rightarrow>
   error + Schedule" where
  "Schedule_init tutor_list day_list min_tutors_ip min_tutors_v min_tutor_shifts
     min_tutor_ip_shifts max_shifts_by_tutor mode_preference availability
     target_ip_fractions target_v_fractions
     SHIFTS_weight ALIGN_weight DAY_PREF_weight MODE_PREF_weight solver =
     bindE (index_table tutor_list) (\<lambda>ti.
     if \<not> length ti = length tutor_list then Inl AssertionError else
     bindE (index_table day_list) (\<lambda>di.
     if \<not> length di = length day_list then Inl AssertionError else
     bindE (mapE (py_lookup max_shifts_by_tutor) tutor_list) (\<lambda>S.
     bindE (mapE (py_lookup mode_preference) tutor_list) (\<lambda>m.
     bindE (mapE (\<lambda>tutor. mapE (\<lambda>day.
              bindE (py_lookup availability tutor) (\<lambda>row. py_lookup row day)) day_list)
              tutor_list) (\<lambda>a.
     bindE (mapE (py_lookup target_ip_fractions) day_list) (\<lambda>fp.
     bindE (mapE (py_lookup target_v_fractions) day_list) (\<lambda>fv.
     case Model_init (int (length tutor_list)) (int (length day_list))
            min_tutors_ip min_tutors_v S min_tutor_shifts min_tutor_ip_shifts a m fp fv
            SHIFTS_weight ALIGN_weight DAY_PREF_weight MODE_PREF_weight solver of
       (Some e, M) \<Rightarrow> Inl e
     | (None, M) \<Rightarrow>
         Inr \<lparr>tutors = tutor_list, tutor_index = ti, days = day_list, day_index = di,
              engine = M\<rparr>)))))))"

subsection \<open>Queries\<close>

definition schedule_found :: "Schedule \<Rightarrow> bool" where
  "schedule_found self = (status (engine self) = OPTIMAL)"

text \<open>The four private validators raise \<^verbatim>\<open>Exception\<close> with a message, or pass.\<close>

definition validate_schedule :: "Schedule \<Rightarrow> error option" where
  "validate_schedule self =
     (if \<not> schedule_found self then Some (Exception ''Schedule not found'') else None)"

definition validate_mode :: "int \<Rightarrow> error option" where
  "validate_mode mode =
     (if mode \<noteq> IN_PERSON \<and> mode \<noteq> VIRTUAL \<and> mode \<noteq> EITHER
      then Some (Exception
        ''The provided mode is not one of Schedule.IN_PERSON, Schedule.VIRTUAL, or Schedule.EITHER'')
      else None)"

definition validate_tutor :: "Schedule \<Rightarrow> string \<Rightarrow> error option" where
  "validate_tutor self tutor =
     (if tutor \<notin> set (tutors self)
      then Some (Exception (CHR 0x22 # tutor @ CHR 0x22 # '' is not a recognized tutor''))
      else None)"

definition validate_day :: "Schedule \<Rightarrow> string \<Rightarrow> error option" where
  "validate_day self day =
     (if day \<notin> set (days self)
      then Some (Exception (CHR 0x22 # day @ CHR 0x22 # '' is not a recognized day''))
      else None)"

definition guard :: "error option \<Rightarrow> error + 'a \<Rightarrow> error + 'a" where
  "guard v k = (case v of Some e \<Rightarrow> Inl e | None \<Rightarrow> k)"

text \<open>
  \<^verbatim>\<open>item==1\<close>. \<^verbatim>\<open>None\<close> and lists are not equal to 1. A variable handle compared with 1
  is a constraint object of the solver library and has no truth value; the model raises
  GurobiError there.
\<close>

fun is_one :: "item \<Rightarrow> error + bool" where
  "is_one (Values (Leaf i)) = Inr (i = 1)"
| "is_one (Handles (Leaf v)) = Inl GurobiError"
| "is_one it = Inr False"

text \<open>\<^verbatim>\<open>self.__model[mode,t,d]==1\<close>\<close>

definition works :: "Schedule \<Rightarrow> int \<Rightarrow> nat \<Rightarrow> nat \<Rightarrow> error + bool" where
  "works self mode t d = bindE (getitem (engine self) (mode, Idx (int t), Idx (int d))) is_one"

text \<open>
  The condition the three queries share: one lookup for a single mode, and for any other
  mode \<^verbatim>\<open>self.__model[Model.IN_PERSON,t,d]==1 or self.__model[Model.VIRTUAL,t,d]==1\<close>, where
  \<^verbatim>\<open>or\<close> evaluates its right operand only when the left one is false.
\<close>

definition works_mode :: "Schedule \<Rightarrow> int \<Rightarrow> nat \<Rightarrow> nat \<Rightarrow> error + bool" where
  "works_mode self mode t d =
     (if mode = IN_PERSON then works self IN_PERSON t d
      else if mode = VIRTUAL then works self VIRTUAL t d
      else bindE (works self IN_PERSON t d) (\<lambda>b.
             if b then Inr True else works self VIRTUAL t d))"

text \<open>
  \<^verbatim>\<open>
  def check(self,mode,tutor,day):
    Schedule.__validate_mode(mode)
    self.__validate_tutor(tutor)
    self.__validate_day(day)
    self.__validate_schedule()
    t,d = self.__tutor_index[tutor], self.__day_index[day]
    if mode==Schedule.IN_PERSON:
      return self.__model[Model.IN_PERSON,t,d]==1
    elif mode==Schedule.VIRTUAL:
      return self.__model[Model.VIRTUAL,t,d]==1
    else:
      return self.__model[Model.IN_PERSON,t,d]==1 or self.__model[Model.VIRTUAL,t,d]==1
  \<close>
\<close>

definition check :: "Schedule \<Rightarrow> int \<Rightarrow> string \<Rightarrow> string \<Rightarrow> error + bool" where
  "check self mode tutor day =
     guard (validate_mode mode)
    (guard (validate_tutor self tutor)
    (guard (validate_day self day)
    (guard (validate_schedule self)
    (bindE (py_lookup (map_of (tutor_index self)) tutor) (\<lambda>t.
     bindE (py_lookup (map_of (day_index self)) day) (\<lambda>d.
     works_mode self mode t d))))))"

text \<open>
  \<^verbatim>\<open>
  def get_tutor_schedule(self,mode,tutor):
    Schedule.__validate_mode(mode)
    self.__validate_tutor(tutor)
    self.__validate_schedule()
    t = self.__tutor_index[tutor]
    if mode==Schedule.IN_PERSON:
      return [self.days[d] for d in range(len(self.days))
              if self.__model[Model.IN_PERSON,t,d]==1]
    ...
  \<close>
  The three branches differ in the condition only. \<^verbatim>\<open>self.days[d]\<close> is in range, \<open>d\<close>
  coming from \<^verbatim>\<open>range(len(self.days))\<close>.
\<close>

definition get_tutor_schedule :: "Schedule \<Rightarrow> int \<Rightarrow> string \<Rightarrow> error + string list" where
  "get_tutor_schedule self mode tutor =
     guard (validate_mode mode)
    (guard (validate_tutor self tutor)
    (guard (validate_schedule self)
    (bindE (py_lookup (map_of (tutor_index self)) tutor) (\<lambda>t.
     bindE (filterE (\<lambda>d. works_mode self mode t d) (py_range (int (length (days self)))))
       (\<lambda>ds. Inr (map (\<lambda>d. days self ! d) ds))))))"

text \<open>
  \<^verbatim>\<open>
  def get_day_schedule(self,mode,day):
    Schedule.__validate_mode(mode)
    self.__validate_day(day)
    self.__validate_schedule()
    d = self.__day_index[day]
    if mode==Schedule.IN_PERSON:
      return [self.tutors[t] for t in range(len(self.tutors))
              if self.__model[Model.IN_PERSON,t,d]==1]
    ...
  \<close>
\<close>

definition get_day_schedule :: "Schedule \<Rightarrow> int \<Rightarrow> string \<Rightarrow> error + string list" where
  "get_day_schedule self mode day =
     guard (validate_mode mode)
    (guard (validate_day self day)
    (guard (validate_schedule self)
    (bindE (py_lookup (map_of (day_index self)) day) (\<lambda>d.
     bindE (filterE (\<lambda>t. works_mode self mode t d) (py_range (int (length (tutors self)))))
       (\<lambda>ts. Inr (map (\<lambda>t. tutors self ! t) ts))))))"

section \<open>Vocabulary of the properties\<close>

text \<open>
  The definitions of this section are not code of the repository: they name the shapes,
  the argument conditions and the constraint lists that the properties below speak about.
  Each list and expression named here is proved below to be what the code builds.
\<close>

text \<open>The engine with more constraints in the solver's model.\<close>

definition add_constrs :: "constr list \<Rightarrow> Model \<Rightarrow> Model" where
  "add_constrs cs self = self\<lparr>model := (model self)\<lparr>constrs := constrs (model self) @ cs\<rparr>\<rparr>"

text \<open>
  The shape of an engine whose variables exist: positive counts and two matrices of
  \<open>N_T\<close> rows of \<open>N_D\<close> variables; and such an engine while it is LOADING.
\<close>

definition built :: "Model \<Rightarrow> bool" where
  "built self =
     (0 < N_T self \<and> 0 < N_D self
      \<and> xp self = as_nested (var_matrix XP (N_T self) (N_D self))
      \<and> xv self = as_nested (var_matrix XV (N_T self) (N_D self)))"

definition assembling :: "int \<Rightarrow> int \<Rightarrow> Model \<Rightarrow> bool" where
  "assembling NT ND self =
     (N_T self = NT \<and> N_D self = ND \<and> built self \<and> status self = LOADING)"

text \<open>
  The construction contract of the engine in the specification's words, for the
  arguments \<^verbatim>\<open>__set_constraints\<close> consumes; \<open>objective_args_ok\<close> and \<open>valid_input\<close> below
  complete it. ``Summing to 1 within tolerance'' is there the constructor's own test,
  \<open>fraction_sum_ok\<close>, which rounds as the interpreter does.
\<close>

definition constraints_args_ok ::
  "int \<Rightarrow> int \<Rightarrow> rat \<Rightarrow> rat \<Rightarrow> rat \<Rightarrow> rat \<Rightarrow> rat list \<Rightarrow> rat list list \<Rightarrow> bool" where
  "constraints_args_ok NT ND lp lv s sp S a =
     (0 \<le> lp \<and> 0 \<le> lv \<and> 0 \<le> s \<and> 0 \<le> sp
      \<and> int (length S) = NT \<and> (\<forall>S_t \<in> set S. 0 \<le> S_t)
      \<and> int (length a) = NT
      \<and> (\<forall>row \<in> set a. int (length row) = ND \<and> (\<forall>x \<in> set row. is_level x)))"

text \<open>
  The constraints in the order the two loops add them: per tutor the ceiling, the two
  floors and one or two constraints per day, then per day the two coverage floors.
\<close>

definition row_sum :: "(nat \<Rightarrow> nat \<Rightarrow> var) \<Rightarrow> int \<Rightarrow> nat \<Rightarrow> expr" where
  "row_sum mk ND t = py_sum (map (\<lambda>d. V (mk t d)) [0 ..< nat ND])"

definition col_sum :: "(nat \<Rightarrow> nat \<Rightarrow> var) \<Rightarrow> int \<Rightarrow> nat \<Rightarrow> expr" where
  "col_sum mk NT d = py_sum (map (\<lambda>t. V (mk t d)) [0 ..< nat NT])"

definition day_constrs :: "rat list list \<Rightarrow> nat \<Rightarrow> nat \<Rightarrow> constr list" where
  "day_constrs a t d =
     (if a ! t ! d = UNAVAILABLE
      then [Eq (V (XP t d)) (Const 0), Eq (V (XV t d)) (Const 0)]
      else [Le (Add (V (XP t d)) (V (XV t d))) (Const 1)])"

definition tutor_constrs :: "rat \<Rightarrow> rat \<Rightarrow> rat list \<Rightarrow> rat list list \<Rightarrow> int \<Rightarrow> nat \<Rightarrow> constr list" where
  "tutor_constrs s sp S a ND t =
     [Le (Add (row_sum XP ND t) (row_sum XV ND t)) (Const (S ! t)),
      Ge (Add (row_sum XP ND t) (row_sum XV ND t)) (Const s),
      Ge (row_sum XP ND t) (Const sp)]
     @ concat (map (day_constrs a t) [0 ..< nat ND])"

definition coverage_constrs :: "rat \<Rightarrow> rat \<Rightarrow> int \<Rightarrow> nat \<Rightarrow> constr list" where
  "coverage_constrs lp lv NT d =
     [Ge (col_sum XP NT d) (Const lp), Ge (col_sum XV NT d) (Const lv)]"

definition all_constrs ::
  "int \<Rightarrow> int \<Rightarrow> rat \<Rightarrow> rat \<Rightarrow> rat \<Rightarrow> rat \<Rightarrow> rat list \<Rightarrow> rat list list \<Rightarrow> constr list" where
  "all_constrs NT ND lp lv s sp S a =
     concat (map (tutor_constrs s sp S a ND) [0 ..< nat NT])
     @ concat (map (coverage_constrs lp lv NT) [0 ..< nat ND])"

definition objective_args_ok ::
  "int \<Rightarrow> int \<Rightarrow> rat list \<Rightarrow> rat list \<Rightarrow> rat list \<Rightarrow> rat \<Rightarrow> rat \<Rightarrow> rat \<Rightarrow> rat \<Rightarrow> bool" where
  "objective_args_ok NT ND m fp fv w1 w2 w3 w4 =
     (int (length m) = NT \<and> (\<forall>m_t \<in> set m. is_mode_pref m_t)
      \<and> int (length fp) = ND \<and> (\<forall>f \<in> set fp. 0 \<le> f)
      \<and> int (length fv) = ND \<and> (\<forall>f \<in> set fv. 0 \<le> f)
      \<and> fraction_sum_ok fp fv
      \<and> 0 \<le> w1 \<and> 0 \<le> w2 \<and> 0 \<le> w3 \<and> 0 \<le> w4)"

text \<open>The objective as one expression.\<close>

definition x_expr :: "nat \<Rightarrow> nat \<Rightarrow> expr" where
  "x_expr t d = Add (V (XP t d)) (V (XV t d))"

definition X_expr :: "int \<Rightarrow> int \<Rightarrow> expr" where
  "X_expr NT ND = py_sum (map (\<lambda>(t, d). x_expr t d) (cells NT ND))"

definition align_expr :: "int \<Rightarrow> int \<Rightarrow> rat list \<Rightarrow> rat list \<Rightarrow> nat \<Rightarrow> expr" where
  "align_expr NT ND fp fv d =
     Add (Pow (Sub (Mul (X_expr NT ND) (Const (fp ! d))) (col_sum XP NT d)) 2)
         (Pow (Sub (Mul (X_expr NT ND) (Const (fv ! d))) (col_sum XV NT d)) 2)"

definition objective_of ::
  "int \<Rightarrow> int \<Rightarrow> rat list list \<Rightarrow> rat list \<Rightarrow> rat list \<Rightarrow> rat list \<Rightarrow>
   rat \<Rightarrow> rat \<Rightarrow> rat \<Rightarrow> rat \<Rightarrow> expr" where
  "objective_of NT ND a m fp fv w1 w2 w3 w4 =
     Add (Add (Add (Mul (Const w1) (X_expr NT ND))
                   (Mul (Const w2)
                      (Mul (Const (- 1 / of_int NT))
                           (py_sum (map (align_expr NT ND fp fv) [0 ..< nat ND])))))
              (Mul (Const w3)
                 (Add (Mul (Const (- 3)) (X_expr NT ND))
                      (Mul (Const 4)
                         (py_sum (map (\<lambda>(t, d). Mul (Const (a ! t ! d)) (x_expr t d))
                                      (cells NT ND)))))))
         (Mul (Const w4)
            (py_sum (map (\<lambda>(t, d). Mul (Sub (V (XP t d)) (V (XV t d))) (Const (m ! t)))
                         (cells NT ND))))"

text \<open>
  The engine object at the four points where the constructor can stop: just created,
  with its variables, with its constraints, and fully assembled.
\<close>

definition fresh :: "int \<Rightarrow> int \<Rightarrow> Model" where
  "fresh NT ND = \<lparr>model = grb_new, status = LOADING, N_T = NT, N_D = ND,
                  xp = List [], xv = List []\<rparr>"

definition with_vars :: "int \<Rightarrow> int \<Rightarrow> Model" where
  "with_vars NT ND =
     (fresh NT ND)\<lparr>model := grb_new\<lparr>vars := concat (var_matrix XP NT ND)
                                          @ concat (var_matrix XV NT ND)\<rparr>,
                   xp := as_nested (var_matrix XP NT ND),
                   xv := as_nested (var_matrix XV NT ND)\<rparr>"

definition with_constrs ::
  "int \<Rightarrow> int \<Rightarrow> rat \<Rightarrow> rat \<Rightarrow> rat list \<Rightarrow> rat \<Rightarrow> rat \<Rightarrow> rat list list \<Rightarrow> Model" where
  "with_constrs NT ND lp lv S s sp a =
     add_constrs (all_constrs NT ND lp lv s sp S a) (with_vars NT ND)"

definition assembled ::
  "int \<Rightarrow> int \<Rightarrow> rat \<Rightarrow> rat \<Rightarrow> rat list \<Rightarrow> rat \<Rightarrow> rat \<Rightarrow> rat list list \<Rightarrow> rat list \<Rightarrow>
   rat list \<Rightarrow> rat list \<Rightarrow> rat \<Rightarrow> rat \<Rightarrow> rat \<Rightarrow> rat \<Rightarrow> Model" where
  "assembled NT ND lp lv S s sp a m fp fv w1 w2 w3 w4 =
     (with_constrs NT ND lp lv S s sp a)
       \<lparr>model := setObjective (objective_of NT ND a m fp fv w1 w2 w3 w4) MAXIMIZE
                   (model (with_constrs NT ND lp lv S s sp a))\<rparr>"

definition valid_input ::
  "int \<Rightarrow> int \<Rightarrow> rat \<Rightarrow> rat \<Rightarrow> rat list \<Rightarrow> rat \<Rightarrow> rat \<Rightarrow> rat list list \<Rightarrow> rat list \<Rightarrow>
   rat list \<Rightarrow> rat list \<Rightarrow> rat \<Rightarrow> rat \<Rightarrow> rat \<Rightarrow> rat \<Rightarrow> bool" where
  "valid_input NT ND lp lv S s sp a m fp fv w1 w2 w3 w4 =
     (0 < NT \<and> 0 < ND \<and> constraints_args_ok NT ND lp lv s sp S a
      \<and> objective_args_ok NT ND m fp fv w1 w2 w3 w4)"

text \<open>
  The four terms of the objective as the specification writes them, for values \<open>\<sigma>\<close> of
  the variables: \<open>X\<close> is the total of \<open>xp[t][d] + xv[t][d]\<close>.
\<close>

definition SHIFTS :: "(var \<Rightarrow> rat) \<Rightarrow> int \<Rightarrow> int \<Rightarrow> rat" where
  "SHIFTS \<sigma> NT ND = (\<Sum>t<nat NT. \<Sum>d<nat ND. \<sigma> (XP t d) + \<sigma> (XV t d))"

definition ALIGN :: "(var \<Rightarrow> rat) \<Rightarrow> int \<Rightarrow> int \<Rightarrow> rat list \<Rightarrow> rat list \<Rightarrow> rat" where
  "ALIGN \<sigma> NT ND fp fv =
     - (1 / of_int NT) *
       (\<Sum>d<nat ND. (SHIFTS \<sigma> NT ND * fp ! d - (\<Sum>t<nat NT. \<sigma> (XP t d)))\<^sup>2
                   + (SHIFTS \<sigma> NT ND * fv ! d - (\<Sum>t<nat NT. \<sigma> (XV t d)))\<^sup>2)"

definition DAY_PREF :: "(var \<Rightarrow> rat) \<Rightarrow> int \<Rightarrow> int \<Rightarrow> rat list list \<Rightarrow> rat" where
  "DAY_PREF \<sigma> NT ND a =
     - 3 * SHIFTS \<sigma> NT ND
     + 4 * (\<Sum>t<nat NT. \<Sum>d<nat ND. a ! t ! d * (\<sigma> (XP t d) + \<sigma> (XV t d)))"

definition MODE_PREF :: "(var \<Rightarrow> rat) \<Rightarrow> int \<Rightarrow> int \<Rightarrow> rat list \<Rightarrow> rat" where
  "MODE_PREF \<sigma> NT ND m = (\<Sum>t<nat NT. \<Sum>d<nat ND. (\<sigma> (XP t d) - \<sigma> (XV t d)) * m ! t)"

text \<open>The first position of an element of a list.\<close>

fun index_of :: "'a list \<Rightarrow> 'a \<Rightarrow> nat" where
  "index_of [] x = 0"
| "index_of (y # ys) x = (if y = x then 0 else Suc (index_of ys x))"

text \<open>
  What the constructor of the facade establishes: identifiers without repetition, index
  tables that map each identifier to its position, and an engine of matching size whose
  status is terminal.
\<close>

definition facade_inv :: "Schedule \<Rightarrow> bool" where
  "facade_inv sch =
     (distinct (tutors sch) \<and> distinct (days sch)
      \<and> (\<forall>k. map_of (tutor_index sch) k
              = (if k \<in> set (tutors sch) then Some (index_of (tutors sch) k) else None))
      \<and> (\<forall>k. map_of (day_index sch) k
              = (if k \<in> set (days sch) then Some (index_of (days sch) k) else None))
      \<and> built (engine sch)
      \<and> N_T (engine sch) = int (length (tutors sch))
      \<and> N_D (engine sch) = int (length (days sch))
      \<and> (status (engine sch) = OPTIMAL \<or> status (engine sch) = INFEASIBLE))"

text \<open>
  The solver's model as the engine submits it: assembled, with the output flag off.
\<close>

definition submitted ::
  "int \<Rightarrow> int \<Rightarrow> rat \<Rightarrow> rat \<Rightarrow> rat list \<Rightarrow> rat \<Rightarrow> rat \<Rightarrow> rat list list \<Rightarrow> rat list \<Rightarrow>
   rat list \<Rightarrow> rat list \<Rightarrow> rat \<Rightarrow> rat \<Rightarrow> rat \<Rightarrow> rat \<Rightarrow> grb_model" where
  "submitted NT ND lp lv S s sp a m fp fv w1 w2 w3 w4 =
     (model (assembled NT ND lp lv S s sp a m fp fv w1 w2 w3 w4))\<lparr>OutputFlag := False\<rparr>"

text \<open>
  The value the solver gave to the variable of a mode, tutor position and day position,
  read as the engine reads it: \<^verbatim>\<open>int(x.X) == 1\<close>. For the either-mode it is the
  disjunction of the two.
\<close>

definition assigned :: "Schedule \<Rightarrow> int \<Rightarrow> nat \<Rightarrow> nat \<Rightarrow> bool" where
  "assigned sch mode t d =
     (if mode = IN_PERSON then py_int (X (model (engine sch)) (XP t d)) = 1
      else if mode = VIRTUAL then py_int (X (model (engine sch)) (XV t d)) = 1
      else py_int (X (model (engine sch)) (XP t d)) = 1
           \<or> py_int (X (model (engine sch)) (XV t d)) = 1)"

text \<open>
  The construction contract of the facade: identifiers without repetition, at least one
  tutor and one day, non-negative floors, for every tutor and day a ceiling, a mode
  preference, an availability level and two fractions within their ranges, fractions
  that pass the constructor's double-precision test on their sum, and non-negative
  weights.
\<close>

definition facade_valid ::
  "string list \<Rightarrow> string list \<Rightarrow> rat \<Rightarrow> rat \<Rightarrow> rat \<Rightarrow> rat \<Rightarrow>
   (string \<rightharpoonup> rat) \<Rightarrow> (string \<rightharpoonup> rat) \<Rightarrow> (string \<rightharpoonup> (string \<rightharpoonup> rat)) \<Rightarrow>
   (string \<rightharpoonup> rat) \<Rightarrow> (string \<rightharpoonup> rat) \<Rightarrow> rat \<Rightarrow> rat \<Rightarrow> rat \<Rightarrow> rat \<Rightarrow> bool" where
  "facade_valid ts ds lp lv s sp Sd md ad fpd fvd w1 w2 w3 w4 =
     (distinct ts \<and> distinct ds \<and> ts \<noteq> [] \<and> ds \<noteq> []
      \<and> 0 \<le> lp \<and> 0 \<le> lv \<and> 0 \<le> s \<and> 0 \<le> sp
      \<and> (\<forall>t \<in> set ts. case Sd t of None \<Rightarrow> False | Some c \<Rightarrow> 0 \<le> c)
      \<and> (\<forall>t \<in> set ts. case md t of None \<Rightarrow> False | Some p \<Rightarrow> is_mode_pref p)
      \<and> (\<forall>t \<in> set ts. case ad t of None \<Rightarrow> False
             | Some row \<Rightarrow> (\<forall>d \<in> set ds. case row d of None \<Rightarrow> False | Some x \<Rightarrow> is_level x))
      \<and> (\<forall>d \<in> set ds. case fpd d of None \<Rightarrow> False | Some f \<Rightarrow> 0 \<le> f)
      \<and> (\<forall>d \<in> set ds. case fvd d of None \<Rightarrow> False | Some f \<Rightarrow> 0 \<le> f)
      \<and> fraction_sum_ok (map (\<lambda>d. the (fpd d)) ds) (map (\<lambda>d. the (fvd d)) ds)
      \<and> 0 \<le> w1 \<and> 0 \<le> w2 \<and> 0 \<le> w3 \<and> 0 \<le> w4)"

text \<open>The positional arrays the facade projects out of the caller's dictionaries.\<close>

definition proj :: "('k \<rightharpoonup> 'v) \<Rightarrow> 'k list \<Rightarrow> 'v list" where
  "proj f ks = map (\<lambda>k. the (f k)) ks"

definition proj2 :: "('k \<rightharpoonup> ('d \<rightharpoonup> 'v)) \<Rightarrow> 'k list \<Rightarrow> 'd list \<Rightarrow> 'v list list" where
  "proj2 ad ts ds = map (\<lambda>t. map (\<lambda>d. the (the (ad t) d)) ds) ts"

definition lookups_defined ::
  "string list \<Rightarrow> string list \<Rightarrow> (string \<rightharpoonup> rat) \<Rightarrow> (string \<rightharpoonup> rat) \<Rightarrow>
   (string \<rightharpoonup> (string \<rightharpoonup> rat)) \<Rightarrow> (string \<rightharpoonup> rat) \<Rightarrow> (string \<rightharpoonup> rat) \<Rightarrow> bool" where
  "lookups_defined ts ds Sd md ad fpd fvd =
     ((\<forall>t \<in> set ts. \<exists>c. Sd t = Some c) \<and> (\<forall>t \<in> set ts. \<exists>p. md t = Some p)
      \<and> (\<forall>t \<in> set ts. \<forall>d \<in> set ds. \<exists>row x. ad t = Some row \<and> row d = Some x)
      \<and> (\<forall>d \<in> set ds. \<exists>f. fpd d = Some f) \<and> (\<forall>d \<in> set ds. \<exists>f. fvd d = Some f))"

text \<open>
  The inputs of the notebook's small test (cell 3): three tutors, two days, no floors.
  Two answers of a solver to it: the optimum the specification expects (Adem and Bebby
  virtual on both days, Chel in person on Monday), and a report of infeasibility.
\<close>

definition small_tutors :: "string list" where
  "small_tutors = [''Adem'', ''Bebby'', ''Chel'']"

definition small_days :: "string list" where
  "small_days = [''Sun'', ''Mon'']"

definition small_max_shifts :: "string \<rightharpoonup> rat" where
  "small_max_shifts = [''Adem'' \<mapsto> 2, ''Bebby'' \<mapsto> 2, ''Chel'' \<mapsto> 1]"

definition small_mode_preference :: "string \<rightharpoonup> rat" where
  "small_mode_preference =
     [''Adem'' \<mapsto> PREFER_VIRTUAL, ''Bebby'' \<mapsto> PREFER_VIRTUAL, ''Chel'' \<mapsto> NO_PREFERENCE]"

definition small_availability :: "string \<rightharpoonup> (string \<rightharpoonup> rat)" where
  "small_availability =
     [''Adem'' \<mapsto> [''Sun'' \<mapsto> NOT_PREFERRED, ''Mon'' \<mapsto> PREFERRED],
      ''Bebby'' \<mapsto> [''Sun'' \<mapsto> NOT_PREFERRED, ''Mon'' \<mapsto> PREFERRED],
      ''Chel'' \<mapsto> [''Sun'' \<mapsto> NOT_PREFERRED, ''Mon'' \<mapsto> PREFERRED]]"

definition small_ip_fractions :: "string \<rightharpoonup> rat" where
  "small_ip_fractions = [''Sun'' \<mapsto> 1 / 2, ''Mon'' \<mapsto> 1 / 2]"

definition small_v_fractions :: "string \<rightharpoonup> rat" where
  "small_v_fractions = [''Sun'' \<mapsto> 0, ''Mon'' \<mapsto> 0]"

definition small_optimum :: solver where
  "small_optimum g =
     (GRB_OPTIMAL,
      \<lambda>v. case v of XP t d \<Rightarrow> (if t = 2 \<and> d = 1 then 1 else 0)
                  | XV t d \<Rightarrow> (if t < 2 then 1 else 0))"

definition no_solution :: solver where
  "no_solution g = (GRB_INFEASIBLE, \<lambda>v. 0)"

section \<open>Properties\<close>

subsection \<open>Basic facts about the exception plumbing\<close>

lemma bindE_Inr [simp]: "bindE (Inr x) f = f x"
  by (simp add: bindE_def)

lemma bindE_Inl [simp]: "bindE (Inl e) f = Inl e"
  by (simp add: bindE_def)

lemma mapE_total:
  "(\<And>x. x \<in> set xs \<Longrightarrow> f x = Inr (g x)) \<Longrightarrow> mapE f xs = Inr (map g xs)"
  by (induction xs) simp_all

lemma filterE_total:
  "(\<And>x. x \<in> set xs \<Longrightarrow> p x = Inr (q x)) \<Longrightarrow> filterE p xs = Inr (filter q xs)"
  by (induction xs) simp_all

subsection \<open>The deep map\<close>

lemma unwrap_then_map_shape: "shape (unwrap_then_map x f) = shape x"
  by (induction x) (simp_all cong: map_cong)

lemma unwrap_then_map_leaves: "leaves (unwrap_then_map x f) = map f (leaves x)"
  by (induction x) (simp_all add: map_concat cong: map_cong)

lemma unwrap_then_map_ident: "unwrap_then_map x (\<lambda>v. v) = x"
  by (induction x) (simp_all add: map_idI)

lemma unwrap_then_map_is_map: "unwrap_then_map x f = map_nested f x"
  by (induction x) simp_all

text \<open>
  C9. For every nested value \<open>x\<close> and every leaf function \<open>f\<close>, \<^verbatim>\<open>__unwrap_then_map(x, f)\<close>
  has the nesting structure of \<open>x\<close>, its leaves are the leaves of \<open>x\<close> with \<open>f\<close> applied
  (in the same order), it is the functorial map of \<open>f\<close> over \<open>x\<close>, and with the identity
  function it returns a value equal to \<open>x\<close>.
\<close>

theorem unwrap_then_map_deep_map:
  "shape (unwrap_then_map x f) = shape x
   \<and> leaves (unwrap_then_map x f) = map f (leaves x)
   \<and> unwrap_then_map x f = map_nested f x
   \<and> unwrap_then_map x (\<lambda>v. v) = x"
  by (simp add: unwrap_then_map_shape unwrap_then_map_leaves unwrap_then_map_ident
      unwrap_then_map_is_map [symmetric])

subsection \<open>The indexer on an assembled engine\<close>

lemma py_slice_all [simp]: "py_slice xs None None = xs"
  by (simp add: py_slice_def slice_bound_def)

lemma py_subscript_nat:
  "d < length xs \<Longrightarrow> py_subscript (List xs) (Idx (int d)) = Inr (xs ! d)"
  by (simp add: from_end_def)

lemma var_matrix_length [simp]: "length (var_matrix mk NT ND) = nat NT"
  by (simp add: var_matrix_def py_range_def)

lemma var_matrix_nth:
  "t < nat NT \<Longrightarrow> var_matrix mk NT ND ! t = map (mk t) [0 ..< nat ND]"
  by (simp add: var_matrix_def py_range_def)

lemma subscript_matrix_row:
  "t < nat NT \<Longrightarrow>
   py_subscript (as_nested (var_matrix mk NT ND)) (Idx (int t))
     = Inr (List (map (\<lambda>d. Leaf (mk t d)) [0 ..< nat ND]))"
  by (auto simp add: as_nested_def from_end_def var_matrix_nth)

lemma subscript_matrix_all:
  "py_subscript (as_nested (var_matrix mk NT ND)) (Slice None None)
     = Inr (List (map (\<lambda>t. List (map (\<lambda>d. Leaf (mk t d)) [0 ..< nat ND])) [0 ..< nat NT]))"
  by (simp add: as_nested_def var_matrix_def py_range_def comp_def)

lemma getitem_cell:
  assumes "built self" "status self \<noteq> INFEASIBLE" "mode = IN_PERSON \<or> mode = VIRTUAL"
    "t < nat (N_T self)" "d < nat (N_D self)"
  shows "getitem self (mode, Idx (int t), Idx (int d))
           = Inr (resolve self (Leaf ((if mode = IN_PERSON then XP else XV) t d)))"
proof -
  have nd: "[0 ..< nat (N_D self)] = 0 # [1 ..< nat (N_D self)]"
    using assms(5) by (simp add: upt_conv_Cons)
  show ?thesis
    using assms
    apply (simp add: getitem_def built_def subscript_matrix_row)
    apply (auto simp add: nd from_end_def nth_Cons split: nat.splits)
    done
qed

lemma getitem_row:
  assumes "built self" "status self \<noteq> INFEASIBLE" "mode = IN_PERSON \<or> mode = VIRTUAL"
    "t < nat (N_T self)"
  shows "getitem self (mode, Idx (int t), Slice None None)
           = Inr (resolve self (List (map (\<lambda>d. Leaf ((if mode = IN_PERSON then XP else XV) t d))
                                       [0 ..< nat (N_D self)])))"
proof -
  have nd: "[0 ..< nat (N_D self)] = 0 # [1 ..< nat (N_D self)]"
    using assms(1) by (simp add: upt_conv_Cons built_def)
  show ?thesis
    using assms
    apply (simp add: getitem_def built_def subscript_matrix_row)
    apply (auto simp add: nd)
    done
qed

lemma mapE_subscript_column:
  "d < n \<Longrightarrow>
   mapE (\<lambda>row. py_subscript row (Idx (int d))) (map (\<lambda>t. List (map (\<lambda>d. Leaf (mk t d)) [0 ..< n])) ts)
     = Inr (map (\<lambda>t. Leaf (mk t d)) ts)"
  by (induction ts) (simp_all add: from_end_def)

lemma getitem_column:
  assumes "built self" "status self \<noteq> INFEASIBLE" "mode = IN_PERSON \<or> mode = VIRTUAL"
    "d < nat (N_D self)"
  shows "getitem self (mode, Slice None None, Idx (int d))
           = Inr (resolve self (List (map (\<lambda>t. Leaf ((if mode = IN_PERSON then XP else XV) t d))
                                       [0 ..< nat (N_T self)])))"
proof -
  have nt: "[0 ..< nat (N_T self)] = 0 # [1 ..< nat (N_T self)]"
    using assms(1) by (simp add: upt_conv_Cons built_def)
  have col: "mapE (\<lambda>row. py_subscript row (Idx (int d)))
        (map (\<lambda>t. List (map (\<lambda>d. Leaf (mk t d)) [0 ..< nat (N_D self)])) [0 ..< nat (N_T self)])
      = Inr (map (\<lambda>t. Leaf (mk t d)) [0 ..< nat (N_T self)])" for mk :: "nat \<Rightarrow> nat \<Rightarrow> var"
    using assms(4) by (rule mapE_subscript_column)
  show ?thesis
    using assms col [of XP] col [of XV]
    apply (simp add: getitem_def built_def subscript_matrix_all)
    apply (auto simp add: nt)
    done
qed

lemma mapE_leaf_expr [simp]:
  "mapE leaf_expr (map (\<lambda>i. Leaf (f i)) is) = Inr (map (\<lambda>i. V (f i)) is)"
  by (induction "is") simp_all

lemma resolve_loading [simp]: "status self = LOADING \<Longrightarrow> resolve self r = Handles r"
  by (simp add: resolve_def)

lemma LOADING_not_INFEASIBLE [simp]: "LOADING \<noteq> INFEASIBLE"
  by (simp add: LOADING_def INFEASIBLE_def)

subsection \<open>Steps that only add constraints\<close>

lemma assembling_add_constrs [simp]:
  "assembling NT ND (add_constrs cs self) = assembling NT ND self"
  by (simp add: assembling_def built_def add_constrs_def)

lemma add_constrs_fields [simp]:
  "N_T (add_constrs cs self) = N_T self" "N_D (add_constrs cs self) = N_D self"
  "status (add_constrs cs self) = status self"
  "xp (add_constrs cs self) = xp self" "xv (add_constrs cs self) = xv self"
  by (simp_all add: add_constrs_def)

lemma add_constrs_nil [simp]: "add_constrs [] self = self"
  by (simp add: add_constrs_def)

lemma add_constrs_append [simp]:
  "add_constrs cs2 (add_constrs cs1 self) = add_constrs (cs1 @ cs2) self"
  by (simp add: add_constrs_def)

lemma addConstrE_ok:
  "c self = Inr k \<Longrightarrow> addConstrE c self = (None, add_constrs [k] self)"
  by (simp add: addConstrE_def add_constrs_def addConstr_def)

lemma andThen_ok:
  "f self = (None, self') \<Longrightarrow> andThen f g self = g self'"
  by (simp add: andThen_def)

lemma forEach_adds:
  assumes "\<And>x self. x \<in> set xs \<Longrightarrow> assembling NT ND self \<Longrightarrow>
             body x self = (None, add_constrs (cs x) self)"
    and "assembling NT ND self"
  shows "forEach xs body self = (None, add_constrs (concat (map cs xs)) self)"
  using assms
proof (induction xs arbitrary: self)
  case Nil
  then show ?case by simp
next
  case (Cons x xs)
  have "body x self = (None, add_constrs (cs x) self)"
    using Cons.prems by simp
  moreover have "forEach xs body (add_constrs (cs x) self)
      = (None, add_constrs (concat (map cs xs)) (add_constrs (cs x) self))"
    using Cons.prems by (intro Cons.IH) simp_all
  ultimately show ?case by (simp add: andThen_def)
qed

lemma count_true_all:
  "(count_true (map P xs) = int (length xs)) = (\<forall>x \<in> set xs. P x)"
proof -
  have "(length (filter P xs) = length xs) = (\<forall>x \<in> set xs. P x)"
    by (metis filter_id_conv length_filter_less order_less_irrefl)
  then show ?thesis by (simp add: count_true_def filter_map comp_def)
qed

lemma py_get_ok [simp]: "i < length xs \<Longrightarrow> py_get xs i = Inr (xs ! i)"
  by (simp add: py_get_def)

lemma py_get2_ok:
  "t < length a \<Longrightarrow> d < length (a ! t) \<Longrightarrow> py_get2 a t d = Inr (a ! t ! d)"
  by (simp add: py_get2_def)

lemma py_get2_matrix:
  assumes "int (length a) = NT" "\<forall>row \<in> set a. int (length row) = ND"
    "t < nat NT" "d < nat ND"
  shows "py_get2 a t d = Inr (a ! t ! d)"
proof -
  have t: "t < length a" using assms by auto
  then have "a ! t \<in> set a" by simp
  then have "int (length (a ! t)) = ND" using assms(2) by blast
  then have "d < length (a ! t)" using assms(4) by auto
  with t show ?thesis by (simp add: py_get2_ok)
qed

lemma cells_set: "set (cells NT ND) = {(t, d). t < nat NT \<and> d < nat ND}"
  by (auto simp add: cells_def py_range_def)

lemma cells_length: "length (cells NT ND) = nat NT * nat ND"
  by (simp add: cells_def py_range_def)

lemma mapE_cells:
  assumes "\<And>t d. t < nat NT \<Longrightarrow> d < nat ND \<Longrightarrow> f (t, d) = Inr (g (t, d))"
  shows "mapE f (cells NT ND) = Inr (map g (cells NT ND))"
  by (rule mapE_total) (use assms in \<open>auto simp add: cells_set\<close>)

lemma validate_constraints_bad_shape:
  assumes "\<not> (int (length a) = NT \<and> (\<forall>row \<in> set a. int (length row) = ND))"
  shows "validate_constraints NT ND lp lv s sp S a = Some AssertionError"
proof (cases "int (length a) = NT")
  case True
  with assms have "\<not> (\<forall>row \<in> set a. int (length row) = ND)" by simp
  then have "count_true (map (\<lambda>row. int (length row) = ND) a) \<noteq> NT"
    using count_true_all [of "\<lambda>row. int (length row) = ND" a] True by simp
  then show ?thesis by (simp add: validate_constraints_def)
next
  case False
  then show ?thesis by (simp add: validate_constraints_def)
qed

lemma validate_constraints_cases:
  "validate_constraints NT ND lp lv s sp S a = None
   \<or> validate_constraints NT ND lp lv s sp S a = Some AssertionError"
proof (cases "int (length a) = NT \<and> (\<forall>row \<in> set a. int (length row) = ND)")
  case True
  then have "mapE (\<lambda>(t, d). bindE (py_get2 a t d) (\<lambda>x. Inr (is_level x))) (cells NT ND)
       = Inr (map (\<lambda>(t, d). is_level (a ! t ! d)) (cells NT ND))"
    by (intro mapE_cells) (simp add: py_get2_matrix [of a NT ND])
  then show ?thesis by (simp add: validate_constraints_def)
next
  case False
  then show ?thesis by (simp add: validate_constraints_bad_shape)
qed

lemma validate_constraints_None:
  "(validate_constraints NT ND lp lv s sp S a = None) = constraints_args_ok NT ND lp lv s sp S a"
proof (cases "int (length a) = NT \<and> (\<forall>row \<in> set a. int (length row) = ND)")
  case True
  then have m: "mapE (\<lambda>(t, d). bindE (py_get2 a t d) (\<lambda>x. Inr (is_level x))) (cells NT ND)
       = Inr (map (\<lambda>(t, d). is_level (a ! t ! d)) (cells NT ND))"
    by (intro mapE_cells) (simp add: py_get2_matrix [of a NT ND])
  have len: "NT * ND = int (length (cells NT ND))"
    using True by (cases a) (auto simp add: cells_length)
  have lv: "(\<forall>c \<in> set (cells NT ND). (case c of (t, d) \<Rightarrow> is_level (a ! t ! d)))
       = (\<forall>row \<in> set a. \<forall>x \<in> set row. is_level x)"
    using True by (auto simp add: cells_set all_set_conv_all_nth)
  have rows: "count_true (map (\<lambda>row. int (length row) = ND) a) = NT"
    using True count_true_all [of "\<lambda>row. int (length row) = ND" a] by simp
  have S: "int (length S) = NT \<Longrightarrow>
      (count_true (map (\<lambda>S_t. 0 \<le> S_t) S) = NT) = (\<forall>S_t \<in> set S. 0 \<le> S_t)"
    using count_true_all [of "\<lambda>S_t. 0 \<le> S_t" S] by simp
  have cnt: "(count_true (map (\<lambda>(t, d). is_level (a ! t ! d)) (cells NT ND)) = NT * ND)
      = (\<forall>row \<in> set a. \<forall>x \<in> set row. is_level x)"
    unfolding len count_true_all lv ..
  have "(validate_constraints NT ND lp lv s sp S a = None)
      = (0 \<le> lp \<and> 0 \<le> lv \<and> 0 \<le> s \<and> 0 \<le> sp \<and> int (length S) = NT
         \<and> count_true (map (\<lambda>S_t. 0 \<le> S_t) S) = NT
         \<and> count_true (map (\<lambda>(t, d). is_level (a ! t ! d)) (cells NT ND)) = NT * ND)"
    using True rows by (simp add: validate_constraints_def m)
  also have "\<dots> = constraints_args_ok NT ND lp lv s sp S a"
    unfolding cnt constraints_args_ok_def using True S by blast
  finally show ?thesis .
next
  case False
  have "validate_constraints NT ND lp lv s sp S a \<noteq> None"
    using False by (simp add: validate_constraints_bad_shape)
  moreover have "\<not> constraints_args_ok NT ND lp lv s sp S a"
    using False unfolding constraints_args_ok_def by blast
  ultimately show ?thesis by simp
qed

lemma modes_distinct [simp]: "VIRTUAL \<noteq> IN_PERSON" "IN_PERSON \<noteq> VIRTUAL"
  by (simp_all add: IN_PERSON_def VIRTUAL_def)

lemma handle_cell:
  assumes "assembling NT ND self" "t < nat NT" "d < nat ND"
  shows "bindE (getitem self (IN_PERSON, Idx (int t), Idx (int d))) handle = Inr (V (XP t d))"
    and "bindE (getitem self (VIRTUAL, Idx (int t), Idx (int d))) handle = Inr (V (XV t d))"
  using assms by (simp_all add: assembling_def getitem_cell)

lemma handle_sum_row:
  assumes "assembling NT ND self" "t < nat NT"
  shows "bindE (getitem self (IN_PERSON, Idx (int t), Slice None None)) handle_sum
           = Inr (row_sum XP ND t)"
    and "bindE (getitem self (VIRTUAL, Idx (int t), Slice None None)) handle_sum
           = Inr (row_sum XV ND t)"
  using assms by (simp_all add: assembling_def getitem_row row_sum_def)

lemma handle_sum_column:
  assumes "assembling NT ND self" "d < nat ND"
  shows "bindE (getitem self (IN_PERSON, Slice None None, Idx (int d))) handle_sum
           = Inr (col_sum XP NT d)"
    and "bindE (getitem self (VIRTUAL, Slice None None, Idx (int d))) handle_sum
           = Inr (col_sum XV NT d)"
  using assms by (simp_all add: assembling_def getitem_column col_sum_def)

lemma day_step_ok:
  assumes "assembling NT ND self" "int (length a) = NT"
    "\<forall>row \<in> set a. int (length row) = ND" "t < nat NT" "d < nat ND"
  shows "day_step a t d self = (None, add_constrs (day_constrs a t d) self)"
proof -
  have a: "py_get2 a t d = Inr (a ! t ! d)"
    using assms by (simp add: py_get2_matrix [of a NT ND])
  have asm: "assembling NT ND (add_constrs cs self)" for cs
    using assms(1) by simp
  show ?thesis
  proof (cases "a ! t ! d = UNAVAILABLE")
    case True
    have 1: "addConstrE (\<lambda>self.
                 bindE (bindE (getitem self (IN_PERSON, Idx (int t), Idx (int d))) handle)
                   (\<lambda>e. Inr (Eq e (Const 0)))) self
          = (None, add_constrs [Eq (V (XP t d)) (Const 0)] self)"
      using assms by (intro addConstrE_ok) (simp add: handle_cell [of NT ND])
    have 2: "addConstrE (\<lambda>self.
                 bindE (bindE (getitem self (VIRTUAL, Idx (int t), Idx (int d))) handle)
                   (\<lambda>e. Inr (Eq e (Const 0)))) (add_constrs [Eq (V (XP t d)) (Const 0)] self)
          = (None, add_constrs [Eq (V (XV t d)) (Const 0)]
                     (add_constrs [Eq (V (XP t d)) (Const 0)] self))"
      using assms asm by (intro addConstrE_ok) (simp add: handle_cell [of NT ND])
    show ?thesis
      using True by (simp add: day_step_def a andThen_def 1 2 day_constrs_def)
  next
    case False
    have "addConstrE (\<lambda>self.
              bindE (bindE (getitem self (IN_PERSON, Idx (int t), Idx (int d))) handle) (\<lambda>e1.
              bindE (bindE (getitem self (VIRTUAL, Idx (int t), Idx (int d))) handle) (\<lambda>e2.
              Inr (Le (Add e1 e2) (Const 1))))) self
          = (None, add_constrs [Le (Add (V (XP t d)) (V (XV t d))) (Const 1)] self)"
      using assms by (intro addConstrE_ok) (simp add: handle_cell [of NT ND])
    then show ?thesis
      using False by (simp add: day_step_def a day_constrs_def)
  qed
qed

lemma tutor_step_ok:
  assumes "assembling NT ND self" "int (length a) = NT"
    "\<forall>row \<in> set a. int (length row) = ND" "int (length S) = NT" "t < nat NT"
  shows "tutor_step s sp S a ND t self = (None, add_constrs (tutor_constrs s sp S a ND t) self)"
proof -
  let ?P = "row_sum XP ND t" and ?V = "row_sum XV ND t"
  have S: "py_get S t = Inr (S ! t)"
    using assms by (intro py_get_ok) linarith
  have 1: "addConstrE (\<lambda>self. Inr (Le (Add ?P ?V) (Const (S ! t)))) self
        = (None, add_constrs [Le (Add ?P ?V) (Const (S ! t))] self)"
    by (intro addConstrE_ok) simp
  have 2: "addConstrE (\<lambda>self. Inr (Ge (Add ?P ?V) (Const s))) self'
        = (None, add_constrs [Ge (Add ?P ?V) (Const s)] self')" for self'
    by (intro addConstrE_ok) simp
  have 3: "addConstrE (\<lambda>self. Inr (Ge ?P (Const sp))) self'
        = (None, add_constrs [Ge ?P (Const sp)] self')" for self'
    by (intro addConstrE_ok) simp
  have 4: "forEach [0 ..< nat ND] (day_step a t) self'
        = (None, add_constrs (concat (map (day_constrs a t) [0 ..< nat ND])) self')"
    if "assembling NT ND self'" for self'
  proof (rule forEach_adds [OF _ that])
    fix d self''
    assume "d \<in> set [0 ..< nat ND]" "assembling NT ND self''"
    then show "day_step a t d self'' = (None, add_constrs (day_constrs a t d) self'')"
      using assms by (intro day_step_ok [of NT ND]) simp_all
  qed
  show ?thesis
    using assms(1,5)
    by (simp add: tutor_step_def handle_sum_row [of NT ND] andThen_def S 1 2 3 4
        tutor_constrs_def py_range_def)
qed

lemma coverage_step_ok:
  assumes "assembling NT ND self" "d < nat ND"
  shows "coverage_step lp lv d self = (None, add_constrs (coverage_constrs lp lv NT d) self)"
proof -
  have 1: "addConstrE (\<lambda>self.
          bindE (bindE (getitem self (IN_PERSON, Slice None None, Idx (int d))) handle_sum)
            (\<lambda>e. Inr (Ge e (Const lp)))) self
        = (None, add_constrs [Ge (col_sum XP NT d) (Const lp)] self)"
    using assms by (intro addConstrE_ok) (simp add: handle_sum_column [of NT ND])
  have 2: "addConstrE (\<lambda>self.
          bindE (bindE (getitem self (VIRTUAL, Slice None None, Idx (int d))) handle_sum)
            (\<lambda>e. Inr (Ge e (Const lv)))) (add_constrs cs self)
        = (None, add_constrs [Ge (col_sum XV NT d) (Const lv)] (add_constrs cs self))" for cs
    using assms by (intro addConstrE_ok) (simp add: handle_sum_column [of NT ND])
  show ?thesis
    by (simp add: coverage_step_def andThen_def 1 2 coverage_constrs_def)
qed

lemma set_constraints_ok:
  assumes "assembling NT ND self" "constraints_args_ok NT ND lp lv s sp S a"
  shows "set_constraints lp lv s sp S a self
           = (None, add_constrs (all_constrs NT ND lp lv s sp S a) self)"
proof -
  have v: "validate_constraints NT ND lp lv s sp S a = None"
    using assms(2) by (simp add: validate_constraints_None)
  have shape: "int (length a) = NT" "\<forall>row \<in> set a. int (length row) = ND" "int (length S) = NT"
    using assms(2) by (simp_all add: constraints_args_ok_def)
  have 1: "forEach [0 ..< nat NT] (tutor_step s sp S a ND) self
      = (None, add_constrs (concat (map (tutor_constrs s sp S a ND) [0 ..< nat NT])) self)"
  proof (rule forEach_adds [OF _ assms(1)])
    fix t self'
    assume "t \<in> set [0 ..< nat NT]" "assembling NT ND self'"
    then show "tutor_step s sp S a ND t self'
        = (None, add_constrs (tutor_constrs s sp S a ND t) self')"
      using shape by (intro tutor_step_ok [of NT ND]) simp_all
  qed
  have 2: "forEach [0 ..< nat ND] (coverage_step lp lv) self'
      = (None, add_constrs (concat (map (coverage_constrs lp lv NT) [0 ..< nat ND])) self')"
    if "assembling NT ND self'" for self'
  proof (rule forEach_adds [OF _ that])
    fix d self''
    assume "d \<in> set [0 ..< nat ND]" "assembling NT ND self''"
    then show "coverage_step lp lv d self''
        = (None, add_constrs (coverage_constrs lp lv NT d) self'')"
      by (intro coverage_step_ok [of NT ND]) simp_all
  qed
  have nd: "N_T self = NT" "N_D self = ND"
    using assms(1) by (simp_all add: assembling_def)
  show ?thesis
    using assms(1)
    by (simp add: set_constraints_def nd v andThen_def 1 2 all_constrs_def py_range_def)
qed

subsection \<open>The constructor of the engine\<close>

lemma validate_objective_cases:
  "validate_objective NT ND m fp fv w1 w2 w3 w4 = None
   \<or> validate_objective NT ND m fp fv w1 w2 w3 w4 = Some AssertionError"
  by (simp add: validate_objective_def)

lemma count_true_len:
  "int (length xs) = n \<Longrightarrow> (count_true (map P xs) = n) = (\<forall>x \<in> set xs. P x)"
  using count_true_all [of P xs] by simp

lemma validate_objective_None:
  "(validate_objective NT ND m fp fv w1 w2 w3 w4 = None)
     = objective_args_ok NT ND m fp fv w1 w2 w3 w4"
proof -
  have "(validate_objective NT ND m fp fv w1 w2 w3 w4 = None)
      = (int (length m) = NT \<and> count_true (map is_mode_pref m) = NT
         \<and> int (length fp) = ND \<and> count_true (map (\<lambda>f. 0 \<le> f) fp) = ND
         \<and> int (length fv) = ND \<and> count_true (map (\<lambda>f. 0 \<le> f) fv) = ND
         \<and> fraction_sum_ok fp fv
         \<and> 0 \<le> w1 \<and> 0 \<le> w2 \<and> 0 \<le> w3 \<and> 0 \<le> w4)"
    by (simp add: validate_objective_def)
  also have "\<dots> = objective_args_ok NT ND m fp fv w1 w2 w3 w4"
    unfolding objective_args_ok_def
    using count_true_len [of m NT is_mode_pref] count_true_len [of fp ND "\<lambda>f. 0 \<le> f"]
      count_true_len [of fv ND "\<lambda>f. 0 \<le> f"]
    by blast
  finally show ?thesis .
qed

lemma x_matrix_ok:
  assumes "assembling NT ND self"
  shows "x_matrix self = Inr (map (\<lambda>t. map (\<lambda>d. x_expr t d) [0 ..< nat ND]) [0 ..< nat NT])"
proof -
  have nd: "N_T self = NT" "N_D self = ND"
    using assms by (simp_all add: assembling_def)
  have row: "mapE (\<lambda>d.
       bindE (bindE (getitem self (IN_PERSON, Idx (int t), Idx (int d))) handle) (\<lambda>e1.
       bindE (bindE (getitem self (VIRTUAL, Idx (int t), Idx (int d))) handle) (\<lambda>e2.
       Inr (Add e1 e2)))) [0 ..< nat ND] = Inr (map (\<lambda>d. x_expr t d) [0 ..< nat ND])"
    if "t < nat NT" for t
    using assms that by (intro mapE_total) (simp add: handle_cell [of NT ND] x_expr_def)
  show ?thesis
    unfolding x_matrix_def nd py_range_def
    by (rule mapE_total) (simp add: row)
qed

lemma cell_ok:
  assumes "t < nat NT" "d < nat ND"
  shows "cell (as_nested (var_matrix mk NT ND)) t d = Inr (V (mk t d))"
  using assms by (auto simp add: cell_def subscript_matrix_row from_end_def)

lemma objective_expr_ok:
  assumes "assembling NT ND self" "int (length a) = NT"
    "\<forall>row \<in> set a. int (length row) = ND"
    "int (length m) = NT" "int (length fp) = ND" "int (length fv) = ND"
  shows "objective_expr self a m fp fv w1 w2 w3 w4
           = Inr (objective_of NT ND a m fp fv w1 w2 w3 w4)"
proof -
  let ?x = "map (\<lambda>t. map (\<lambda>d. x_expr t d) [0 ..< nat ND]) [0 ..< nat NT]"
  have nd: "N_T self = NT" "N_D self = ND" and pos: "0 < NT"
    and xs: "xp self = as_nested (var_matrix XP NT ND)" "xv self = as_nested (var_matrix XV NT ND)"
    using assms(1) by (auto simp add: assembling_def built_def)
  have x: "py_get2 ?x t d = Inr (x_expr t d)" if "t < nat NT" "d < nat ND" for t d
    using that by (simp add: py_get2_def)
  have X: "mapE (\<lambda>(t, d). py_get2 ?x t d) (cells NT ND)
      = Inr (map (\<lambda>(t, d). x_expr t d) (cells NT ND))"
    by (intro mapE_cells) (simp add: x)
  have al: "mapE (align_term self (X_expr NT ND) fp fv) [0 ..< nat ND]
      = Inr (map (align_expr NT ND fp fv) [0 ..< nat ND])"
  proof (intro mapE_total)
    fix d assume "d \<in> set [0 ..< nat ND]"
    then have d: "d < nat ND" by simp
    then have "py_get fp d = Inr (fp ! d)" "py_get fv d = Inr (fv ! d)"
      using assms(5,6) by (simp_all add: py_get_def)
    then show "align_term self (X_expr NT ND) fp fv d = Inr (align_expr NT ND fp fv d)"
      using assms(1) d by (simp add: align_term_def align_expr_def handle_sum_column [of NT ND])
  qed
  have dp: "mapE (\<lambda>(t, d). bindE (py_get2 a t d) (\<lambda>a_td. bindE (py_get2 ?x t d) (\<lambda>x_td.
               Inr (Mul (Const a_td) x_td)))) (cells NT ND)
      = Inr (map (\<lambda>(t, d). Mul (Const (a ! t ! d)) (x_expr t d)) (cells NT ND))"
    using assms(2,3) by (intro mapE_cells) (simp add: x py_get2_matrix [of a NT ND])
  have mp: "mapE (\<lambda>(t, d). bindE (cell (xp self) t d) (\<lambda>p. bindE (cell (xv self) t d) (\<lambda>v.
               bindE (py_get m t) (\<lambda>m_t. Inr (Mul (Sub p v) (Const m_t)))))) (cells NT ND)
      = Inr (map (\<lambda>(t, d). Mul (Sub (V (XP t d)) (V (XV t d))) (Const (m ! t))) (cells NT ND))"
  proof (intro mapE_cells)
    fix t d assume td: "t < nat NT" "d < nat ND"
    then have "py_get m t = Inr (m ! t)"
      using assms(4) by (simp add: py_get_def)
    then show "(case (t, d) of (t, d) \<Rightarrow> bindE (cell (xp self) t d) (\<lambda>p. bindE (cell (xv self) t d) (\<lambda>v.
               bindE (py_get m t) (\<lambda>m_t. Inr (Mul (Sub p v) (Const m_t))))))
        = Inr (case (t, d) of (t, d) \<Rightarrow> Mul (Sub (V (XP t d)) (V (XV t d))) (Const (m ! t)))"
      using td by (simp add: xs cell_ok)
  qed
  show ?thesis
    using pos
    by (simp add: objective_expr_def x_matrix_ok [OF assms(1)] nd X al dp mp Let_def
        py_range_def objective_of_def X_expr_def [symmetric])
qed

lemma fold_addVar: "fold addVar vs g = g\<lparr>vars := vars g @ vs\<rparr>"
  by (induction vs arbitrary: g) (simp_all add: addVar_def)

lemma set_decision_variables_fresh:
  "set_decision_variables NT ND (fresh NT ND)
     = (if 0 < NT \<and> 0 < ND then (None, with_vars NT ND) else (Some AssertionError, fresh NT ND))"
  by (simp add: set_decision_variables_def VALIDATE_def Let_def fold_addVar with_vars_def
      fresh_def grb_new_def)

lemma assembling_with_vars: "0 < NT \<Longrightarrow> 0 < ND \<Longrightarrow> assembling NT ND (with_vars NT ND)"
  by (simp add: assembling_def built_def with_vars_def fresh_def)

lemma set_constraints_fail:
  assumes "N_T self = NT" "N_D self = ND" "\<not> constraints_args_ok NT ND lp lv s sp S a"
  shows "set_constraints lp lv s sp S a self = (Some AssertionError, self)"
proof -
  have "validate_constraints NT ND lp lv s sp S a = Some AssertionError"
    using assms(3) validate_constraints_cases [of NT ND lp lv s sp S a]
    by (simp add: validate_constraints_None)
  then show ?thesis
    by (simp add: set_constraints_def VALIDATE_def assms(1,2))
qed

lemma set_objective_function_fail:
  assumes "N_T self = NT" "N_D self = ND" "\<not> objective_args_ok NT ND m fp fv w1 w2 w3 w4"
  shows "set_objective_function a m fp fv w1 w2 w3 w4 self = (Some AssertionError, self)"
proof -
  have "validate_objective NT ND m fp fv w1 w2 w3 w4 = Some AssertionError"
    using assms(3) validate_objective_cases [of NT ND m fp fv w1 w2 w3 w4]
    by (simp add: validate_objective_None)
  then show ?thesis
    by (simp add: set_objective_function_def VALIDATE_def assms(1,2))
qed

lemma set_objective_function_ok:
  assumes "assembling NT ND self" "constraints_args_ok NT ND lp lv s sp S a"
    "objective_args_ok NT ND m fp fv w1 w2 w3 w4"
  shows "set_objective_function a m fp fv w1 w2 w3 w4 self
     = (None, self\<lparr>model := setObjective (objective_of NT ND a m fp fv w1 w2 w3 w4) MAXIMIZE
                                (model self)\<rparr>)"
proof -
  have nd: "N_T self = NT" "N_D self = ND"
    using assms(1) by (simp_all add: assembling_def)
  have v: "validate_objective NT ND m fp fv w1 w2 w3 w4 = None"
    using assms(3) by (simp add: validate_objective_None)
  have "objective_expr self a m fp fv w1 w2 w3 w4
      = Inr (objective_of NT ND a m fp fv w1 w2 w3 w4)"
    using assms by (intro objective_expr_ok)
      (simp_all add: constraints_args_ok_def objective_args_ok_def)
  then show ?thesis
    by (simp add: set_objective_function_def nd v)
qed

lemma Model_init_eq:
  "Model_init NT ND lp lv S s sp a m fp fv w1 w2 w3 w4 solver =
     (if \<not> (0 < NT \<and> 0 < ND) then (Some AssertionError, fresh NT ND)
      else if \<not> constraints_args_ok NT ND lp lv s sp S a
        then (Some AssertionError, with_vars NT ND)
      else if \<not> objective_args_ok NT ND m fp fv w1 w2 w3 w4
        then (Some AssertionError, with_constrs NT ND lp lv S s sp a)
      else solve solver (assembled NT ND lp lv S s sp a m fp fv w1 w2 w3 w4))"
proof -
  have init: "Model_init NT ND lp lv S s sp a m fp fv w1 w2 w3 w4 solver
      = andThen (set_decision_variables NT ND)
          (andThen (set_constraints lp lv s sp S a)
          (andThen (set_objective_function a m fp fv w1 w2 w3 w4)
                   (solve solver))) (fresh NT ND)"
    by (simp add: Model_init_def fresh_def)
  show ?thesis
  proof (cases "0 < NT \<and> 0 < ND")
    case False
    then have "set_decision_variables NT ND (fresh NT ND) = (Some AssertionError, fresh NT ND)"
      by (simp add: set_decision_variables_fresh)
    then show ?thesis
      using False by (simp add: init andThen_def)
  next
    case pos: True
    then have asm: "assembling NT ND (with_vars NT ND)"
      by (simp add: assembling_with_vars)
    then have nd: "N_T (with_vars NT ND) = NT" "N_D (with_vars NT ND) = ND"
      by (simp_all add: assembling_def)
    show ?thesis
    proof (cases "constraints_args_ok NT ND lp lv s sp S a")
      case False
      then show ?thesis
        using pos
        by (simp add: init andThen_def set_decision_variables_fresh
            set_constraints_fail [OF nd])
    next
      case c: True
      have sc: "set_constraints lp lv s sp S a (with_vars NT ND)
          = (None, with_constrs NT ND lp lv S s sp a)"
        using asm c by (simp add: set_constraints_ok with_constrs_def)
      have asm2: "assembling NT ND (with_constrs NT ND lp lv S s sp a)"
        using asm by (simp add: with_constrs_def)
      then have nd2: "N_T (with_constrs NT ND lp lv S s sp a) = NT"
        "N_D (with_constrs NT ND lp lv S s sp a) = ND"
        by (simp_all add: assembling_def)
      show ?thesis
      proof (cases "objective_args_ok NT ND m fp fv w1 w2 w3 w4")
        case False
        then show ?thesis
          using pos c
          by (simp add: init andThen_def set_decision_variables_fresh sc
              set_objective_function_fail [OF nd2])
      next
        case True
        then show ?thesis
          using pos c
          by (simp add: init andThen_def set_decision_variables_fresh sc
              set_objective_function_ok [OF asm2 c True] assembled_def)
      qed
    qed
  qed
qed

subsection \<open>Double precision at concrete numbers\<close>

text \<open>
  The rounding function at numbers whose doubles are known: \<^verbatim>\<open>0.1\<close> is
  \<open>3602879701896397 / 2\<^sup>5\<^sup>5\<close>, \<^verbatim>\<open>0.001\<close> is \<open>1152921504606847 / 2\<^sup>6\<^sup>0\<close>, and a double is
  its own rounding.
\<close>

lemma binary64_examples:
  "binary64 (1 / 10) = 3602879701896397 / 36028797018963968"
  "binary64 (1 / 1000) = 1152921504606847 / 1152921504606846976"
  "binary64 (501 / 1000) = 4512606826625237 / 9007199254740992"
  "binary64 (4512606826625237 / 9007199254740992) = 4512606826625237 / 9007199254740992"
  "binary64 1 = 1" "binary64 (1 / 2) = 1 / 2" "binary64 (- 3) = - 3"
  by code_simp+

lemma round_half_even_error: "\<bar>of_int (round_half_even q) - q\<bar> \<le> 1 / 2"
  unfolding round_half_even_def Let_def by (auto simp add: abs_if) linarith+

lemma pow2_pos: "0 < pow2 k"
  by (simp add: pow2_def)

text \<open>The exponent found by \<open>binade\<close> is that of the leading bit.\<close>

lemma binade_bounds:
  assumes "x \<noteq> 0"
  shows "pow2 (binade x) \<le> \<bar>x\<bar> \<and> \<bar>x\<bar> < pow2 (binade x + 1)"
proof (cases "1 \<le> \<bar>x\<bar>")
    case True
    define n where "n = \<lfloor>\<bar>x\<bar>\<rfloor>"
    have n: "0 < n" using True by (simp add: n_def)
    from bitlen_bounds [OF n]
    have b: "2 ^ nat (bitlen n - 1) \<le> n" "n < 2 ^ nat (bitlen n)" by simp_all
    have bl: "0 < bitlen n" using n by (auto simp: bitlen_alt_def)
    have e: "binade x = bitlen n - 1" using True by (simp add: binade_def n_def)
    have "pow2 (bitlen n - 1) = of_int (2 ^ nat (bitlen n - 1))"
      using bl by (simp add: pow2_def)
    also have "\<dots> \<le> of_int n" using b(1) by (simp only: of_int_le_iff)
    also have "\<dots> \<le> \<bar>x\<bar>" by (simp add: n_def)
    finally have lo: "pow2 (binade x) \<le> \<bar>x\<bar>" by (simp add: e)
    have "\<bar>x\<bar> < of_int (n + 1)" unfolding n_def by simp linarith
    also have "\<dots> \<le> of_int (2 ^ nat (bitlen n))"
      using b(2) by (simp only: of_int_le_iff)
    also have "\<dots> = pow2 (bitlen n)" using bl by (simp add: pow2_def)
    finally have "\<bar>x\<bar> < pow2 (binade x + 1)" by (simp add: e)
    with lo show ?thesis by simp
  next
    case False
    then have lt: "\<bar>x\<bar> < 1" and pos: "0 < \<bar>x\<bar>" using assms by simp_all
    define y where "y = 1 / \<bar>x\<bar>"
    define m where "m = \<lceil>y\<rceil>"
    have y1: "1 < y" using lt pos by (simp add: y_def)
    then have m2: "0 < m - 1" by (simp add: m_def)
    from bitlen_bounds [OF m2]
    have b: "2 ^ nat (bitlen (m - 1) - 1) \<le> m - 1" "m - 1 < 2 ^ nat (bitlen (m - 1))"
      by simp_all
    have bl: "0 < bitlen (m - 1)" using m2 by (auto simp: bitlen_alt_def)
    have e: "binade x = - bitlen (m - 1)" using False by (simp add: binade_def m_def y_def)
    have "y \<le> of_int m" by (simp add: m_def)
    also have "\<dots> \<le> of_int (2 ^ nat (bitlen (m - 1)))"
      using b(2) by (simp only: of_int_le_iff)
    finally have 1: "y \<le> 2 ^ nat (bitlen (m - 1))" by simp
    have "of_int (2 ^ nat (bitlen (m - 1) - 1)) \<le> (of_int (m - 1) :: rat)"
      using b(1) by (simp only: of_int_le_iff)
    also have "\<dots> < y" by (simp add: m_def) linarith
    finally have 2: "2 ^ nat (bitlen (m - 1) - 1) < y" by simp
    have x: "\<bar>x\<bar> = 1 / y" using pos by (simp add: y_def)
    have lo: "pow2 (binade x) \<le> \<bar>x\<bar>"
      using 1 y1 bl unfolding e x pow2_def by (simp add: frac_le)
    have "\<bar>x\<bar> < pow2 (binade x + 1)"
    proof (cases "bitlen (m - 1) = 1")
      case True
      then show ?thesis using y1 unfolding e x pow2_def by simp
    next
      case False
      then have "1 - bitlen (m - 1) < 0" using bl by linarith
      moreover have "nat (bitlen (m - 1) - 1) = nat (- (1 - bitlen (m - 1)))" by simp
      ultimately show ?thesis
        using 2 y1 unfolding e x pow2_def
        by (simp add: frac_less2 field_simps)
    qed
    with lo show ?thesis by simp
qed

text \<open>A rounded number is within half a unit of its last place.\<close>

lemma binary64_error:
  "x \<noteq> 0 \<Longrightarrow> \<bar>binary64 x - x\<bar> \<le> pow2 (max (binade x - 52) (- 1074)) / 2"
proof -
  assume "x \<noteq> 0"
  let ?k = "max (binade x - 52) (- 1074)"
  have "\<bar>of_int (round_half_even (x / pow2 ?k)) * pow2 ?k - x\<bar>
      = \<bar>of_int (round_half_even (x / pow2 ?k)) - x / pow2 ?k\<bar> * pow2 ?k"
  proof -
    have "of_int (round_half_even (x / pow2 ?k)) * pow2 ?k - x
        = (of_int (round_half_even (x / pow2 ?k)) - x / pow2 ?k) * pow2 ?k"
      using pow2_pos [of ?k] by (simp add: left_diff_distrib)
    then show ?thesis
      using pow2_pos [of ?k] by (simp add: abs_mult)
  qed
  also have "\<dots> \<le> 1 / 2 * pow2 ?k"
    using round_half_even_error [of "x / pow2 ?k"] pow2_pos [of ?k]
    by (intro mult_right_mono) simp_all
  finally show ?thesis
    using \<open>x \<noteq> 0\<close> by (simp add: binary64_def Let_def)
qed

lemma fraction_sum_ok_examples:
  "fraction_sum_ok [1 / 2] [1 / 2]"
  "fraction_sum_ok [1 / 4] [3 / 4]"
  "fraction_sum_ok [1 / 2, 1 / 2] [0, 0]"
  "fraction_sum_ok [1 / 2, 1 / 2] [1 / 2048, 0]"
  "\<not> fraction_sum_ok [1 / 2, 1 / 2] [1 / 512, 0]"
  "fraction_sum_ok [1 / 2, 4512606826625237 / 9007199254740992] [0, 0]"
  "\<not> fraction_sum_ok [5116089176692883 / 72057594037927936,
                        8358680908399641 / 9007199254740992] [0, 0]"
  by code_simp+

subsection \<open>The meaning of the assembled constraints\<close>

lemma eval_foldl_Add:
  "eval \<sigma> (foldl Add e es) = eval \<sigma> e + sum_list (map (eval \<sigma>) es)"
  by (induction es arbitrary: e) simp_all

lemma eval_py_sum: "eval \<sigma> (py_sum es) = sum_list (map (eval \<sigma>) es)"
  by (simp add: py_sum_def eval_foldl_Add)

lemma sum_list_upt: "sum_list (map f [0 ..< n]) = (\<Sum>i<n. f i)"
  by (simp add: interv_sum_list_conv_sum_set_nat atLeast0LessThan)

lemma eval_row_sum: "eval \<sigma> (row_sum mk ND t) = (\<Sum>d<nat ND. \<sigma> (mk t d))"
  by (simp add: row_sum_def eval_py_sum comp_def sum_list_upt)

lemma eval_col_sum: "eval \<sigma> (col_sum mk NT d) = (\<Sum>t<nat NT. \<sigma> (mk t d))"
  by (simp add: col_sum_def eval_py_sum comp_def sum_list_upt)

lemma ball_concat_upt:
  "(\<forall>c \<in> set (concat (map f [0 ..< n])). P c) = (\<forall>i<n. \<forall>c \<in> set (f i). P c)"
  by auto

lemma holds_day_constrs:
  "(\<forall>c \<in> set (day_constrs a t d). holds \<sigma> c)
     = (if a ! t ! d = UNAVAILABLE then \<sigma> (XP t d) = 0 \<and> \<sigma> (XV t d) = 0
        else \<sigma> (XP t d) + \<sigma> (XV t d) \<le> 1)"
  by (simp add: day_constrs_def)

lemma holds_tutor_constrs:
  "(\<forall>c \<in> set (tutor_constrs s sp S a ND t). holds \<sigma> c)
     = ((\<Sum>d<nat ND. \<sigma> (XP t d) + \<sigma> (XV t d)) \<le> S ! t
        \<and> s \<le> (\<Sum>d<nat ND. \<sigma> (XP t d) + \<sigma> (XV t d))
        \<and> sp \<le> (\<Sum>d<nat ND. \<sigma> (XP t d))
        \<and> (\<forall>d<nat ND. if a ! t ! d = UNAVAILABLE then \<sigma> (XP t d) = 0 \<and> \<sigma> (XV t d) = 0
                        else \<sigma> (XP t d) + \<sigma> (XV t d) \<le> 1))"
  unfolding tutor_constrs_def set_append ball_Un ball_concat_upt holds_day_constrs
  by (simp add: eval_row_sum sum.distrib)

lemma holds_coverage_constrs:
  "(\<forall>c \<in> set (coverage_constrs lp lv NT d). holds \<sigma> c)
     = (lp \<le> (\<Sum>t<nat NT. \<sigma> (XP t d)) \<and> lv \<le> (\<Sum>t<nat NT. \<sigma> (XV t d)))"
  by (simp add: coverage_constrs_def eval_col_sum)

lemma holds_all_constrs:
  "(\<forall>c \<in> set (all_constrs NT ND lp lv s sp S a). holds \<sigma> c)
     = ((\<forall>t<nat NT. \<forall>c \<in> set (tutor_constrs s sp S a ND t). holds \<sigma> c)
        \<and> (\<forall>d<nat ND. \<forall>c \<in> set (coverage_constrs lp lv NT d). holds \<sigma> c))"
  unfolding all_constrs_def set_append ball_Un ball_concat_upt ..

lemma Model_init_success:
  assumes "Model_init NT ND lp lv S s sp a m fp fv w1 w2 w3 w4 solver = (None, M)"
  shows "valid_input NT ND lp lv S s sp a m fp fv w1 w2 w3 w4"
    and "M = snd (solve solver (assembled NT ND lp lv S s sp a m fp fv w1 w2 w3 w4))"
  using assms
  by (auto simp add: Model_init_eq valid_input_def split: if_splits)

lemma Model_init_valid:
  assumes "valid_input NT ND lp lv S s sp a m fp fv w1 w2 w3 w4"
  shows "Model_init NT ND lp lv S s sp a m fp fv w1 w2 w3 w4 solver
     = (None, snd (solve solver (assembled NT ND lp lv S s sp a m fp fv w1 w2 w3 w4)))"
  using assms by (simp add: Model_init_eq valid_input_def solve_def Let_def)

lemma constrs_solved:
  "constrs (model (snd (solve solver (assembled NT ND lp lv S s sp a m fp fv w1 w2 w3 w4))))
     = all_constrs NT ND lp lv s sp S a"
  by (simp add: solve_def Let_def optimize_def assembled_def setObjective_def with_constrs_def
      add_constrs_def with_vars_def fresh_def grb_new_def)

lemma objective_solved:
  "objective (model (snd (solve solver (assembled NT ND lp lv S s sp a m fp fv w1 w2 w3 w4))))
     = Some (objective_of NT ND a m fp fv w1 w2 w3 w4, MAXIMIZE)"
  by (simp add: solve_def Let_def optimize_def assembled_def setObjective_def)

text \<open>
  C1. For every valid construction input the constructor succeeds, and values \<open>\<sigma>\<close> of the
  variables satisfy every constraint the engine has added to the solver's model if and
  only if: for every tutor \<open>t\<close> the total of in-person and virtual assignments over the
  days is at most \<open>S[t]\<close> and at least \<open>s\<close>, and the in-person total is at least \<open>sp\<close>;
  for every tutor \<open>t\<close> and day \<open>d\<close>, both variables are 0 where \<open>a[t][d]\<close> is
  unavailable and their sum is at most 1 otherwise; and for every day \<open>d\<close> the in-person
  head count is at least \<open>lp\<close> and the virtual one at least \<open>lv\<close>.
\<close>

theorem hard_constraints_exact:
  assumes "valid_input NT ND lp lv S s sp a m fp fv w1 w2 w3 w4"
  shows "\<exists>M. Model_init NT ND lp lv S s sp a m fp fv w1 w2 w3 w4 solver = (None, M) \<and>
    ((\<forall>c \<in> set (constrs (model M)). holds \<sigma> c) =
     ((\<forall>t<nat NT. (\<Sum>d<nat ND. \<sigma> (XP t d) + \<sigma> (XV t d)) \<le> S ! t
                  \<and> s \<le> (\<Sum>d<nat ND. \<sigma> (XP t d) + \<sigma> (XV t d))
                  \<and> sp \<le> (\<Sum>d<nat ND. \<sigma> (XP t d)))
      \<and> (\<forall>t<nat NT. \<forall>d<nat ND.
            if a ! t ! d = UNAVAILABLE then \<sigma> (XP t d) = 0 \<and> \<sigma> (XV t d) = 0
            else \<sigma> (XP t d) + \<sigma> (XV t d) \<le> 1)
      \<and> (\<forall>d<nat ND. lp \<le> (\<Sum>t<nat NT. \<sigma> (XP t d)) \<and> lv \<le> (\<Sum>t<nat NT. \<sigma> (XV t d)))))"
proof -
  let ?M = "snd (solve solver (assembled NT ND lp lv S s sp a m fp fv w1 w2 w3 w4))"
  have c: "constrs (model ?M) = all_constrs NT ND lp lv s sp S a"
    by (simp add: constrs_solved)
  have "(\<forall>c \<in> set (constrs (model ?M)). holds \<sigma> c) =
     ((\<forall>t<nat NT. (\<Sum>d<nat ND. \<sigma> (XP t d) + \<sigma> (XV t d)) \<le> S ! t
                  \<and> s \<le> (\<Sum>d<nat ND. \<sigma> (XP t d) + \<sigma> (XV t d))
                  \<and> sp \<le> (\<Sum>d<nat ND. \<sigma> (XP t d)))
      \<and> (\<forall>t<nat NT. \<forall>d<nat ND.
            if a ! t ! d = UNAVAILABLE then \<sigma> (XP t d) = 0 \<and> \<sigma> (XV t d) = 0
            else \<sigma> (XP t d) + \<sigma> (XV t d) \<le> 1)
      \<and> (\<forall>d<nat ND. lp \<le> (\<Sum>t<nat NT. \<sigma> (XP t d)) \<and> lv \<le> (\<Sum>t<nat NT. \<sigma> (XV t d))))"
    unfolding c holds_all_constrs holds_tutor_constrs holds_coverage_constrs by auto
  with Model_init_valid [OF assms] show ?thesis by blast
qed

theorem hard_constraints_exact_witness:
  "valid_input 1 1 0 0 [1] 0 0 [[1]] [0] [1 / 2] [1 / 2] 1 1 1 1
   \<and> (\<exists>M. Model_init 1 1 0 0 [1] 0 0 [[1]] [0] [1 / 2] [1 / 2] 1 1 1 1 (\<lambda>g. (2, \<lambda>v. 0))
            = (None, M)
          \<and> (\<forall>c \<in> set (constrs (model M)). holds (\<lambda>v. 0) c))"
proof -
  have ok: "valid_input 1 1 0 0 [1] 0 0 [[1]] [0] [1 / 2] [1 / 2] 1 1 1 1"
    by (simp add: valid_input_def constraints_args_ok_def objective_args_ok_def is_level_def
        is_mode_pref_def PREFERRED_def NO_PREFERENCE_def fraction_sum_ok_examples)
  from hard_constraints_exact [OF ok, of "\<lambda>g. (2, \<lambda>v. 0)" "\<lambda>v. 0"] ok show ?thesis
    by (simp add: UNAVAILABLE_def)
qed

subsection \<open>The meaning of the assembled objective\<close>

lemma sum_list_product:
  "sum_list (map f (List.product xs ys))
     = sum_list (map (\<lambda>x. sum_list (map (\<lambda>y. f (x, y)) ys)) xs)"
  by (induction xs) (simp_all add: comp_def)

lemma sum_list_cells:
  "sum_list (map f (cells NT ND)) = (\<Sum>t<nat NT. \<Sum>d<nat ND. f (t, d))"
  by (simp add: cells_def py_range_def sum_list_product sum_list_upt)

lemma eval_X_expr:
  "eval \<sigma> (X_expr NT ND) = (\<Sum>t<nat NT. \<Sum>d<nat ND. \<sigma> (XP t d) + \<sigma> (XV t d))"
  by (simp add: X_expr_def eval_py_sum comp_def sum_list_cells x_expr_def case_prod_unfold)

lemma eval_objective_of:
  "eval \<sigma> (objective_of NT ND a m fp fv w1 w2 w3 w4)
     = w1 * SHIFTS \<sigma> NT ND + w2 * ALIGN \<sigma> NT ND fp fv + w3 * DAY_PREF \<sigma> NT ND a
       + w4 * MODE_PREF \<sigma> NT ND m"
  by (simp add: objective_of_def eval_py_sum comp_def sum_list_cells sum_list_upt x_expr_def
      case_prod_unfold eval_X_expr align_expr_def eval_col_sum
      SHIFTS_def ALIGN_def DAY_PREF_def MODE_PREF_def)

text \<open>
  C2. For every valid construction input the constructor succeeds and the objective it
  hands to the solver, to be maximised, evaluates, under any values \<open>\<sigma>\<close> of the variables, to
  \<open>w1\<cdot>X + w2\<cdot>ALIGN + w3\<cdot>DAY_PREF + w4\<cdot>MODE_PREF\<close> with the four terms as the specification
  writes them.
\<close>

theorem objective_is_weighted_sum:
  assumes "valid_input NT ND lp lv S s sp a m fp fv w1 w2 w3 w4"
  shows "\<exists>M e. Model_init NT ND lp lv S s sp a m fp fv w1 w2 w3 w4 solver = (None, M)
     \<and> objective (model M) = Some (e, MAXIMIZE)
     \<and> eval \<sigma> e = w1 * SHIFTS \<sigma> NT ND + w2 * ALIGN \<sigma> NT ND fp fv
                  + w3 * DAY_PREF \<sigma> NT ND a + w4 * MODE_PREF \<sigma> NT ND m"
  using Model_init_valid [OF assms, of solver]
  by (simp add: objective_solved eval_objective_of)

theorem objective_is_weighted_sum_witness:
  "valid_input 1 1 0 0 [1] 0 0 [[1 / 2]] [1] [1 / 4] [3 / 4] 1 2 3 4
   \<and> (\<exists>M e. Model_init 1 1 0 0 [1] 0 0 [[1 / 2]] [1] [1 / 4] [3 / 4] 1 2 3 4
               (\<lambda>g. (2, \<lambda>v. 0)) = (None, M)
          \<and> objective (model M) = Some (e, MAXIMIZE)
          \<and> eval (\<lambda>v. case v of XP t d \<Rightarrow> 1 | XV t d \<Rightarrow> 0) e = - 1 / 4)"
proof -
  have ok: "valid_input 1 1 0 0 [1] 0 0 [[1 / 2]] [1] [1 / 4] [3 / 4] 1 2 3 4"
    by (simp add: valid_input_def constraints_args_ok_def objective_args_ok_def is_level_def
        is_mode_pref_def NOT_PREFERRED_def PREFER_IN_PERSON_def fraction_sum_ok_examples)
  from objective_is_weighted_sum [OF ok, of "\<lambda>g. (2, \<lambda>v. 0)"
      "\<lambda>v. case v of XP t d \<Rightarrow> 1 | XV t d \<Rightarrow> 0"] ok
  show ?thesis
    by (simp add: SHIFTS_def ALIGN_def DAY_PREF_def MODE_PREF_def power2_eq_square)
qed

subsection \<open>The index tables of the facade\<close>

lemma list_index_mem: "x \<in> set xs \<Longrightarrow> list_index xs x = Inr (index_of xs x)"
  by (induction xs) auto

lemma index_of_less: "x \<in> set xs \<Longrightarrow> index_of xs x < length xs"
  by (induction xs) auto

lemma nth_index_of: "x \<in> set xs \<Longrightarrow> xs ! index_of xs x = x"
  by (induction xs) auto

lemma index_of_nth: "distinct xs \<Longrightarrow> i < length xs \<Longrightarrow> index_of xs (xs ! i) = i"
proof (induction xs arbitrary: i)
  case Nil
  then show ?case by simp
next
  case (Cons y ys)
  then show ?case by (cases i) auto
qed

lemma fold_update_keys:
  "distinct (map fst acc) \<Longrightarrow>
   distinct (map fst (fold (\<lambda>(k, v) d. AList.update k v d) kvs acc))
   \<and> fst ` set (fold (\<lambda>(k, v) d. AList.update k v d) kvs acc) = fst ` set acc \<union> fst ` set kvs"
proof (induction kvs arbitrary: acc)
  case Nil
  then show ?case by simp
next
  case (Cons kv kvs)
  obtain k v where kv: "kv = (k, v)" by (cases kv)
  have "distinct (map fst (AList.update k v acc))"
    using Cons.prems by (rule distinct_update)
  from Cons.IH [OF this] show ?case
    by (auto simp add: kv dom_update)
qed

lemma length_dict_comp: "length (dict_comp kvs) = card (fst ` set kvs)"
proof -
  have d: "distinct (map fst (dict_comp kvs))" and s: "fst ` set (dict_comp kvs) = fst ` set kvs"
    using fold_update_keys [of "[]" kvs] by (simp_all add: dict_comp_def)
  have "length (dict_comp kvs) = length (map fst (dict_comp kvs))" by simp
  also have "\<dots> = card (set (map fst (dict_comp kvs)))"
    using d by (simp only: distinct_card)
  finally show ?thesis using s by simp
qed

lemma map_of_fold_update:
  "map_of (fold (\<lambda>(k, v) d. AList.update k v d) (map (\<lambda>x. (x, f x)) xs) acc) k
     = (if k \<in> set xs then Some (f k) else map_of acc k)"
  by (induction xs arbitrary: acc) (simp_all add: update_conv')

lemma index_table_eq:
  "index_table xs = Inr (dict_comp (map (\<lambda>x. (x, index_of xs x)) xs))"
proof -
  have "mapE (\<lambda>x. bindE (list_index xs x) (\<lambda>i. Inr (x, i))) xs
      = Inr (map (\<lambda>x. (x, index_of xs x)) xs)"
    by (rule mapE_total) (simp add: list_index_mem)
  then show ?thesis by (simp add: index_table_def)
qed

lemma index_table_length:
  "index_table xs = Inr ti \<Longrightarrow> (length ti = length xs) = distinct xs"
  by (auto simp add: index_table_eq length_dict_comp image_image card_distinct distinct_card)

lemma index_table_lookup:
  "index_table xs = Inr ti \<Longrightarrow>
   map_of ti k = (if k \<in> set xs then Some (index_of xs k) else None)"
  using map_of_fold_update [of "index_of xs" xs "[]" k]
  by (auto simp add: index_table_eq dict_comp_def)

subsection \<open>The constructor of the facade\<close>

lemma bindE_eq_Inr: "(bindE r f = Inr y) = (\<exists>x. r = Inr x \<and> f x = Inr y)"
  by (cases r) simp_all

lemma bindE_InrE:
  assumes "bindE r f = Inr y"
  obtains x where "r = Inr x" "f x = Inr y"
  using assms by (cases r) simp_all

lemma Schedule_init_Inr:
  assumes "Schedule_init ts ds lp lv s sp Sd md ad fpd fvd w1 w2 w3 w4 solver = Inr sch"
  shows "\<exists>S m a fp fv ti di.
    index_table ts = Inr ti \<and> index_table ds = Inr di \<and> distinct ts \<and> distinct ds
    \<and> mapE (py_lookup Sd) ts = Inr S \<and> mapE (py_lookup md) ts = Inr m
    \<and> mapE (\<lambda>tutor. mapE (\<lambda>day. bindE (py_lookup ad tutor) (\<lambda>row. py_lookup row day)) ds) ts
       = Inr a
    \<and> mapE (py_lookup fpd) ds = Inr fp \<and> mapE (py_lookup fvd) ds = Inr fv
    \<and> Model_init (int (length ts)) (int (length ds)) lp lv S s sp a m fp fv w1 w2 w3 w4 solver
       = (None, engine sch)
    \<and> sch = \<lparr>tutors = ts, tutor_index = ti, days = ds, day_index = di, engine = engine sch\<rparr>"
  using assms unfolding Schedule_init_def
  apply (erule_tac bindE_InrE)
  apply (simp split: if_splits)
  apply (erule_tac bindE_InrE)
  apply (simp split: if_splits)
  apply (erule_tac bindE_InrE)+
  apply (auto simp add: index_table_length split: prod.splits option.splits)
  done

lemma solved_fields:
  fixes NT ND lp lv S s sp a m fp fv w1 w2 w3 w4 solver
  defines "M \<equiv> snd (solve solver (assembled NT ND lp lv S s sp a m fp fv w1 w2 w3 w4))"
  shows "N_T M = NT" "N_D M = ND"
    "xp M = as_nested (var_matrix XP NT ND)" "xv M = as_nested (var_matrix XV NT ND)"
    "grb_status (model M) = fst (solver (submitted NT ND lp lv S s sp a m fp fv w1 w2 w3 w4))"
    "X (model M) = snd (solver (submitted NT ND lp lv S s sp a m fp fv w1 w2 w3 w4))"
    "status M = (if grb_status (model M) = GRB_OPTIMAL then OPTIMAL else INFEASIBLE)"
  unfolding M_def
  by (simp_all add: solve_def Let_def optimize_def assembled_def submitted_def with_constrs_def
      with_vars_def fresh_def)

lemma Model_init_built:
  assumes "Model_init NT ND lp lv S s sp a m fp fv w1 w2 w3 w4 solver = (None, M)"
  shows "built M" "N_T M = NT" "N_D M = ND" "status M = OPTIMAL \<or> status M = INFEASIBLE"
proof -
  have v: "0 < NT" "0 < ND"
    using Model_init_success(1) [OF assms] by (simp_all add: valid_input_def)
  have M: "M = snd (solve solver (assembled NT ND lp lv S s sp a m fp fv w1 w2 w3 w4))"
    by (rule Model_init_success(2) [OF assms])
  show "N_T M = NT" "N_D M = ND" "status M = OPTIMAL \<or> status M = INFEASIBLE"
    unfolding M by (simp_all add: solved_fields)
  show "built M"
    unfolding M built_def using v by (simp add: solved_fields)
qed

lemma Schedule_init_inv:
  assumes "Schedule_init ts ds lp lv s sp Sd md ad fpd fvd w1 w2 w3 w4 solver = Inr sch"
  shows "facade_inv sch" "tutors sch = ts" "days sch = ds"
proof -
  from Schedule_init_Inr [OF assms] obtain S m a fp fv ti di where
    ti: "index_table ts = Inr ti" and di: "index_table ds = Inr di"
    and dist: "distinct ts" "distinct ds"
    and M: "Model_init (int (length ts)) (int (length ds)) lp lv S s sp a m fp fv w1 w2 w3 w4
              solver = (None, engine sch)"
    and sch: "sch = \<lparr>tutors = ts, tutor_index = ti, days = ds, day_index = di,
                      engine = engine sch\<rparr>"
    by blast
  have f: "tutors sch = ts" "days sch = ds" "tutor_index sch = ti" "day_index sch = di"
    by (subst sch, simp)+
  show "tutors sch = ts" "days sch = ds" by (rule f)+
  show "facade_inv sch"
    unfolding facade_inv_def f
    using dist Model_init_built [OF M] index_table_lookup [OF ti] index_table_lookup [OF di]
    by simp
qed

subsection \<open>The queries of the facade\<close>

lemma OPTIMAL_not_others [simp]:
  "OPTIMAL \<noteq> INFEASIBLE" "OPTIMAL \<noteq> LOADING" "INFEASIBLE \<noteq> OPTIMAL" "LOADING \<noteq> OPTIMAL"
  by (simp_all add: OPTIMAL_def INFEASIBLE_def LOADING_def)

lemma works_optimal:
  assumes "facade_inv sch" "status (engine sch) = OPTIMAL"
    "t < length (tutors sch)" "d < length (days sch)"
  shows "works sch IN_PERSON t d = Inr (assigned sch IN_PERSON t d)"
    and "works sch VIRTUAL t d = Inr (assigned sch VIRTUAL t d)"
  using assms
  by (simp_all add: works_def facade_inv_def getitem_cell resolve_def assigned_def)

lemma works_mode_optimal:
  assumes "facade_inv sch" "status (engine sch) = OPTIMAL"
    "t < length (tutors sch)" "d < length (days sch)"
  shows "works_mode sch mode t d = Inr (assigned sch mode t d)"
  using works_optimal [OF assms]
  by (simp add: works_mode_def assigned_def)

lemma map_nth_filter_upt:
  assumes "distinct xs"
  shows "map (\<lambda>i. xs ! i) (filter q [0 ..< length xs]) = filter (\<lambda>x. q (index_of xs x)) xs"
proof -
  have "filter (\<lambda>x. q (index_of xs x)) xs
      = filter (\<lambda>x. q (index_of xs x)) (map (\<lambda>i. xs ! i) [0 ..< length xs])"
    by (simp add: map_nth)
  also have "\<dots> = map (\<lambda>i. xs ! i) (filter (\<lambda>i. q (index_of xs (xs ! i))) [0 ..< length xs])"
    by (simp add: filter_map comp_def)
  also have "filter (\<lambda>i. q (index_of xs (xs ! i))) [0 ..< length xs] = filter q [0 ..< length xs]"
    using assms by (intro filter_cong) (simp_all add: index_of_nth)
  finally show ?thesis by simp
qed

lemma check_eq:
  assumes "facade_inv sch"
  shows "check sch mode tutor day =
     (if \<not> (mode = IN_PERSON \<or> mode = VIRTUAL \<or> mode = EITHER) then
        Inl (Exception
          ''The provided mode is not one of Schedule.IN_PERSON, Schedule.VIRTUAL, or Schedule.EITHER'')
      else if tutor \<notin> set (tutors sch) then
        Inl (Exception (CHR 0x22 # tutor @ CHR 0x22 # '' is not a recognized tutor''))
      else if day \<notin> set (days sch) then
        Inl (Exception (CHR 0x22 # day @ CHR 0x22 # '' is not a recognized day''))
      else if \<not> schedule_found sch then Inl (Exception ''Schedule not found'')
      else Inr (assigned sch mode (index_of (tutors sch) tutor) (index_of (days sch) day)))"
proof -
  have look: "py_lookup (map_of (tutor_index sch)) tutor = Inr (index_of (tutors sch) tutor)"
    if "tutor \<in> set (tutors sch)"
    using assms that by (simp add: facade_inv_def py_lookup_def)
  have lookd: "py_lookup (map_of (day_index sch)) day = Inr (index_of (days sch) day)"
    if "day \<in> set (days sch)"
    using assms that by (simp add: facade_inv_def py_lookup_def)
  have w: "works_mode sch md (index_of (tutors sch) tutor) (index_of (days sch) day)
      = Inr (assigned sch md (index_of (tutors sch) tutor) (index_of (days sch) day))"
    if "tutor \<in> set (tutors sch)" "day \<in> set (days sch)" "schedule_found sch" for md
    using that assms
    by (intro works_mode_optimal) (simp_all add: index_of_less schedule_found_def)
  show ?thesis
    by (auto simp add: check_def guard_def validate_mode_def validate_tutor_def
        validate_day_def validate_schedule_def look lookd w)
qed

lemma get_tutor_schedule_eq:
  assumes "facade_inv sch"
  shows "get_tutor_schedule sch mode tutor =
     (if \<not> (mode = IN_PERSON \<or> mode = VIRTUAL \<or> mode = EITHER) then
        Inl (Exception
          ''The provided mode is not one of Schedule.IN_PERSON, Schedule.VIRTUAL, or Schedule.EITHER'')
      else if tutor \<notin> set (tutors sch) then
        Inl (Exception (CHR 0x22 # tutor @ CHR 0x22 # '' is not a recognized tutor''))
      else if \<not> schedule_found sch then Inl (Exception ''Schedule not found'')
      else Inr (filter (\<lambda>day. assigned sch mode (index_of (tutors sch) tutor)
                                 (index_of (days sch) day)) (days sch)))"
proof -
  have look: "py_lookup (map_of (tutor_index sch)) tutor = Inr (index_of (tutors sch) tutor)"
    if "tutor \<in> set (tutors sch)"
    using assms that by (simp add: facade_inv_def py_lookup_def)
  have f: "filterE (works_mode sch md (index_of (tutors sch) tutor))
              [0 ..< length (days sch)]
      = Inr (filter (assigned sch md (index_of (tutors sch) tutor))
              [0 ..< length (days sch)])"
    if "tutor \<in> set (tutors sch)" "schedule_found sch" for md
    using that assms
    by (intro filterE_total works_mode_optimal) (simp_all add: index_of_less schedule_found_def)
  have d: "distinct (days sch)"
    using assms by (simp add: facade_inv_def)
  show ?thesis
    by (auto simp add: get_tutor_schedule_def guard_def validate_mode_def validate_tutor_def
        validate_schedule_def look f py_range_def map_nth_filter_upt [OF d])
qed

lemma get_day_schedule_eq:
  assumes "facade_inv sch"
  shows "get_day_schedule sch mode day =
     (if \<not> (mode = IN_PERSON \<or> mode = VIRTUAL \<or> mode = EITHER) then
        Inl (Exception
          ''The provided mode is not one of Schedule.IN_PERSON, Schedule.VIRTUAL, or Schedule.EITHER'')
      else if day \<notin> set (days sch) then
        Inl (Exception (CHR 0x22 # day @ CHR 0x22 # '' is not a recognized day''))
      else if \<not> schedule_found sch then Inl (Exception ''Schedule not found'')
      else Inr (filter (\<lambda>tutor. assigned sch mode (index_of (tutors sch) tutor)
                                   (index_of (days sch) day)) (tutors sch)))"
proof -
  have look: "py_lookup (map_of (day_index sch)) day = Inr (index_of (days sch) day)"
    if "day \<in> set (days sch)"
    using assms that by (simp add: facade_inv_def py_lookup_def)
  have f: "filterE (\<lambda>t. works_mode sch md t (index_of (days sch) day))
              [0 ..< length (tutors sch)]
      = Inr (filter (\<lambda>t. assigned sch md t (index_of (days sch) day))
              [0 ..< length (tutors sch)])"
    if "day \<in> set (days sch)" "schedule_found sch" for md
    using that assms
    by (intro filterE_total works_mode_optimal) (simp_all add: index_of_less schedule_found_def)
  have d: "distinct (tutors sch)"
    using assms by (simp add: facade_inv_def)
  show ?thesis
    by (auto simp add: get_day_schedule_def guard_def validate_mode_def validate_day_def
        validate_schedule_def look f py_range_def map_nth_filter_upt [OF d])
qed

subsection \<open>Which inputs the facade accepts\<close>

lemma mapE_Inr_D:
  "mapE f xs = Inr ys \<Longrightarrow> (\<forall>x \<in> set xs. \<exists>y. f x = Inr y) \<and> ys = map (\<lambda>x. projr (f x)) xs"
  by (induction xs arbitrary: ys) (auto split: sum.splits)

lemma py_lookup_Some: "f k = Some v \<Longrightarrow> py_lookup f k = Inr v"
  by (simp add: py_lookup_def)

lemma py_lookup_Inr: "(py_lookup f k = Inr v) = (f k = Some v)"
  by (simp add: py_lookup_def split: option.splits)

lemma mapE_lookup_D:
  assumes "mapE (py_lookup f) ks = Inr vs"
  shows "\<forall>k \<in> set ks. \<exists>v. f k = Some v" and "vs = map (\<lambda>k. the (f k)) ks"
proof -
  from mapE_Inr_D [OF assms]
  have 1: "\<forall>k \<in> set ks. \<exists>v. py_lookup f k = Inr v"
    and 2: "vs = map (\<lambda>k. projr (py_lookup f k)) ks" by simp_all
  show 3: "\<forall>k \<in> set ks. \<exists>v. f k = Some v"
    using 1 by (simp add: py_lookup_Inr)
  have "map (\<lambda>k. projr (py_lookup f k)) ks = map (\<lambda>k. the (f k)) ks"
    using 3 by (intro map_cong) (auto simp add: py_lookup_Some)
  with 2 show "vs = map (\<lambda>k. the (f k)) ks" by simp
qed

lemma mapE_lookup_I:
  "\<forall>k \<in> set ks. \<exists>v. f k = Some v \<Longrightarrow> mapE (py_lookup f) ks = Inr (map (\<lambda>k. the (f k)) ks)"
  by (rule mapE_total) (auto simp add: py_lookup_Some)

lemma lookup2_Some:
  "ad t = Some row \<Longrightarrow> bindE (py_lookup ad t) (\<lambda>row. py_lookup row d) = py_lookup row d"
  by (simp add: py_lookup_Some)

lemma lookup2_Inr:
  "(bindE (py_lookup ad t) (\<lambda>row. py_lookup row d) = Inr x)
     = (\<exists>row. ad t = Some row \<and> row d = Some x)"
  by (cases "ad t") (simp_all add: py_lookup_def split: option.splits)

lemma mapE_lookup2_D:
  assumes "mapE (\<lambda>tutor. mapE (\<lambda>day. bindE (py_lookup ad tutor) (\<lambda>row. py_lookup row day)) ds) ts
      = Inr a"
  shows "\<forall>t \<in> set ts. \<forall>d \<in> set ds. \<exists>row x. ad t = Some row \<and> row d = Some x"
    and "a = map (\<lambda>t. map (\<lambda>d. the (the (ad t) d)) ds) ts"
proof -
  let ?row = "\<lambda>t. mapE (\<lambda>day. bindE (py_lookup ad t) (\<lambda>row. py_lookup row day)) ds"
  from mapE_Inr_D [OF assms]
  have 1: "\<forall>t \<in> set ts. \<exists>r. ?row t = Inr r" and 2: "a = map (\<lambda>t. projr (?row t)) ts"
    by simp_all
  have 3: "(\<forall>d \<in> set ds. \<exists>row x. ad t = Some row \<and> row d = Some x)
      \<and> projr (?row t) = map (\<lambda>d. the (the (ad t) d)) ds" if "t \<in> set ts" for t
  proof -
    from 1 that obtain r where r: "?row t = Inr r" by blast
    from mapE_Inr_D [OF r]
    have a: "\<forall>d \<in> set ds. \<exists>x. bindE (py_lookup ad t) (\<lambda>row. py_lookup row d) = Inr x"
      and b: "r = map (\<lambda>d. projr (bindE (py_lookup ad t) (\<lambda>row. py_lookup row d))) ds"
      by simp_all
    have c: "\<forall>d \<in> set ds. \<exists>row x. ad t = Some row \<and> row d = Some x"
      using a unfolding lookup2_Inr by blast
    have "map (\<lambda>d. projr (bindE (py_lookup ad t) (\<lambda>row. py_lookup row d))) ds
        = map (\<lambda>d. the (the (ad t) d)) ds"
      using c by (intro map_cong) (auto simp add: py_lookup_Some)
    with r b c show ?thesis by simp
  qed
  show "\<forall>t \<in> set ts. \<forall>d \<in> set ds. \<exists>row x. ad t = Some row \<and> row d = Some x"
    using 3 by blast
  have "map (\<lambda>t. projr (?row t)) ts = map (\<lambda>t. map (\<lambda>d. the (the (ad t) d)) ds) ts"
    using 3 by (intro map_cong) simp_all
  with 2 show "a = map (\<lambda>t. map (\<lambda>d. the (the (ad t) d)) ds) ts" by simp
qed

lemma mapE_lookup2_I:
  assumes "\<forall>t \<in> set ts. \<forall>d \<in> set ds. \<exists>row x. ad t = Some row \<and> row d = Some x"
  shows "mapE (\<lambda>tutor. mapE (\<lambda>day. bindE (py_lookup ad tutor) (\<lambda>row. py_lookup row day)) ds) ts
      = Inr (map (\<lambda>t. map (\<lambda>d. the (the (ad t) d)) ds) ts)"
proof (rule mapE_total)
  fix t assume t: "t \<in> set ts"
  show "mapE (\<lambda>day. bindE (py_lookup ad t) (\<lambda>row. py_lookup row day)) ds
      = Inr (map (\<lambda>d. the (the (ad t) d)) ds)"
  proof (rule mapE_total)
    fix d assume "d \<in> set ds"
    with assms t obtain row x where "ad t = Some row" "row d = Some x" by blast
    then show "bindE (py_lookup ad t) (\<lambda>row. py_lookup row d) = Inr (the (the (ad t) d))"
      by (simp add: py_lookup_Some)
  qed
qed

lemma facade_valid_proj:
  "facade_valid ts ds lp lv s sp Sd md ad fpd fvd w1 w2 w3 w4 =
     (distinct ts \<and> distinct ds \<and> lookups_defined ts ds Sd md ad fpd fvd
      \<and> valid_input (int (length ts)) (int (length ds)) lp lv (proj Sd ts) s sp
           (proj2 ad ts ds) (proj md ts) (proj fpd ds) (proj fvd ds) w1 w2 w3 w4)"
proof -
  have ne: "ds \<noteq> [] \<Longrightarrow> \<exists>d. d \<in> set ds"
    by (cases ds) auto
  have S: "((\<forall>t \<in> set ts. \<exists>c. Sd t = Some c) \<and> (\<forall>c \<in> set (proj Sd ts). 0 \<le> c))
      = (\<forall>t \<in> set ts. case Sd t of None \<Rightarrow> False | Some c \<Rightarrow> 0 \<le> c)"
    by (fastforce simp add: proj_def split: option.splits)
  have m: "((\<forall>t \<in> set ts. \<exists>p. md t = Some p) \<and> (\<forall>p \<in> set (proj md ts). is_mode_pref p))
      = (\<forall>t \<in> set ts. case md t of None \<Rightarrow> False | Some p \<Rightarrow> is_mode_pref p)"
    by (fastforce simp add: proj_def split: option.splits)
  have fp: "((\<forall>d \<in> set ds. \<exists>f. fpd d = Some f) \<and> (\<forall>f \<in> set (proj fpd ds). 0 \<le> f))
      = (\<forall>d \<in> set ds. case fpd d of None \<Rightarrow> False | Some f \<Rightarrow> 0 \<le> f)"
    by (fastforce simp add: proj_def split: option.splits)
  have fv: "((\<forall>d \<in> set ds. \<exists>f. fvd d = Some f) \<and> (\<forall>f \<in> set (proj fvd ds). 0 \<le> f))
      = (\<forall>d \<in> set ds. case fvd d of None \<Rightarrow> False | Some f \<Rightarrow> 0 \<le> f)"
    by (fastforce simp add: proj_def split: option.splits)
  have cases_ex: "(\<forall>t \<in> set ts. case ad t of None \<Rightarrow> False
             | Some row \<Rightarrow> (\<forall>d \<in> set ds. case row d of None \<Rightarrow> False | Some x \<Rightarrow> is_level x))
      = (\<forall>t \<in> set ts. \<exists>row. ad t = Some row
             \<and> (\<forall>d \<in> set ds. \<exists>x. row d = Some x \<and> is_level x))"
    by (intro ball_cong refl) (auto split: option.splits)
  have a: "ds \<noteq> [] \<Longrightarrow>
      ((\<forall>t \<in> set ts. \<forall>d \<in> set ds. \<exists>row x. ad t = Some row \<and> row d = Some x)
        \<and> (\<forall>row \<in> set (proj2 ad ts ds). \<forall>x \<in> set row. is_level x))
      = (\<forall>t \<in> set ts. \<exists>row. ad t = Some row
             \<and> (\<forall>d \<in> set ds. \<exists>x. row d = Some x \<and> is_level x))"
  proof -
    assume "ds \<noteq> []"
    then obtain d0 where d0: "d0 \<in> set ds" using ne by blast
    have lv: "(\<forall>row \<in> set (proj2 ad ts ds). \<forall>x \<in> set row. is_level x)
        = (\<forall>t \<in> set ts. \<forall>d \<in> set ds. is_level (the (the (ad t) d)))"
      by (auto simp add: proj2_def)
    show ?thesis
      unfolding lv
    proof (intro iffI ballI conjI)
      fix t assume L: "(\<forall>t \<in> set ts. \<forall>d \<in> set ds. \<exists>row x. ad t = Some row \<and> row d = Some x)
          \<and> (\<forall>t \<in> set ts. \<forall>d \<in> set ds. is_level (the (the (ad t) d)))" and t: "t \<in> set ts"
      from L t d0 obtain row where row: "ad t = Some row" by blast
      have "\<exists>x. row d = Some x \<and> is_level x" if "d \<in> set ds" for d
      proof -
        from L t that obtain x where "row d = Some x" using row by fastforce
        moreover from L t that have "is_level (the (the (ad t) d))" by blast
        ultimately show ?thesis using row by simp
      qed
      with row show "\<exists>row. ad t = Some row \<and> (\<forall>d \<in> set ds. \<exists>x. row d = Some x \<and> is_level x)"
        by blast
    next
      fix t d
      assume R: "\<forall>t \<in> set ts. \<exists>row. ad t = Some row
             \<and> (\<forall>d \<in> set ds. \<exists>x. row d = Some x \<and> is_level x)"
        and td: "t \<in> set ts" "d \<in> set ds"
      then obtain row x where "ad t = Some row" "row d = Some x" "is_level x" by blast
      then show "\<exists>row x. ad t = Some row \<and> row d = Some x"
        and "is_level (the (the (ad t) d))" by simp_all
    qed
  qed
  have len: "int (length (proj Sd ts)) = int (length ts)"
    "int (length (proj md ts)) = int (length ts)"
    "int (length (proj fpd ds)) = int (length ds)"
    "int (length (proj fvd ds)) = int (length ds)"
    "int (length (proj2 ad ts ds)) = int (length ts)"
    by (simp_all add: proj_def proj2_def)
  have rows: "\<forall>row \<in> set (proj2 ad ts ds). int (length row) = int (length ds)"
    by (auto simp add: proj2_def)
  have sums: "map (\<lambda>d. the (fpd d)) ds = proj fpd ds" "map (\<lambda>d. the (fvd d)) ds = proj fvd ds"
    by (simp_all add: proj_def)
  define LS where "LS = (\<forall>t \<in> set ts. \<exists>c. Sd t = Some c)"
  define PS where "PS = (\<forall>c \<in> set (proj Sd ts). 0 \<le> c)"
  define Lm where "Lm = (\<forall>t \<in> set ts. \<exists>p. md t = Some p)"
  define Pm where "Pm = (\<forall>p \<in> set (proj md ts). is_mode_pref p)"
  define La where "La = (\<forall>t \<in> set ts. \<forall>d \<in> set ds. \<exists>row x. ad t = Some row \<and> row d = Some x)"
  define Pa where "Pa = (\<forall>row \<in> set (proj2 ad ts ds). \<forall>x \<in> set row. is_level x)"
  define Lfp where "Lfp = (\<forall>d \<in> set ds. \<exists>f. fpd d = Some f)"
  define Pfp where "Pfp = (\<forall>f \<in> set (proj fpd ds). 0 \<le> f)"
  define Lfv where "Lfv = (\<forall>d \<in> set ds. \<exists>f. fvd d = Some f)"
  define Pfv where "Pfv = (\<forall>f \<in> set (proj fvd ds). 0 \<le> f)"
  define Q where "Q = (0 \<le> lp \<and> 0 \<le> lv \<and> 0 \<le> s \<and> 0 \<le> sp
      \<and> fraction_sum_ok (proj fpd ds) (proj fvd ds)
      \<and> 0 \<le> w1 \<and> 0 \<le> w2 \<and> 0 \<le> w3 \<and> 0 \<le> w4)"
  have Pa': "Pa = (\<forall>row \<in> set (proj2 ad ts ds).
      int (length row) = int (length ds) \<and> (\<forall>x \<in> set row. is_level x))"
    unfolding Pa_def using rows by blast
  have vi: "valid_input (int (length ts)) (int (length ds)) lp lv (proj Sd ts) s sp
           (proj2 ad ts ds) (proj md ts) (proj fpd ds) (proj fvd ds) w1 w2 w3 w4
      = (ts \<noteq> [] \<and> ds \<noteq> [] \<and> Q \<and> PS \<and> Pa \<and> Pm \<and> Pfp \<and> Pfv)"
    unfolding valid_input_def constraints_args_ok_def objective_args_ok_def len
      Pa' PS_def Pm_def Pfp_def Pfv_def Q_def
    by (simp add: conj_ac)
  have fv': "facade_valid ts ds lp lv s sp Sd md ad fpd fvd w1 w2 w3 w4
      = (distinct ts \<and> distinct ds \<and> ts \<noteq> [] \<and> ds \<noteq> [] \<and> Q \<and> (LS \<and> PS) \<and> (Lm \<and> Pm)
         \<and> (\<forall>t \<in> set ts. \<exists>row. ad t = Some row
             \<and> (\<forall>d \<in> set ds. \<exists>x. row d = Some x \<and> is_level x))
         \<and> (Lfp \<and> Pfp) \<and> (Lfv \<and> Pfv))"
    unfolding facade_valid_def sums Q_def LS_def PS_def Lm_def Pm_def Lfp_def Pfp_def
      Lfv_def Pfv_def S m fp fv cases_ex
    by (simp add: conj_ac)
  have a': "ds \<noteq> [] \<Longrightarrow> (La \<and> Pa) = (\<forall>t \<in> set ts. \<exists>row. ad t = Some row
             \<and> (\<forall>d \<in> set ds. \<exists>x. row d = Some x \<and> is_level x))"
    unfolding La_def Pa_def by (rule a)
  have ld: "lookups_defined ts ds Sd md ad fpd fvd = (LS \<and> Lm \<and> La \<and> Lfp \<and> Lfv)"
    unfolding lookups_defined_def LS_def Lm_def La_def Lfp_def Lfv_def ..
  show ?thesis
    unfolding fv' vi ld using a' by blast
qed

lemma Schedule_init_valid:
  assumes "facade_valid ts ds lp lv s sp Sd md ad fpd fvd w1 w2 w3 w4"
  shows "Schedule_init ts ds lp lv s sp Sd md ad fpd fvd w1 w2 w3 w4 solver =
     Inr \<lparr>tutors = ts, tutor_index = dict_comp (map (\<lambda>x. (x, index_of ts x)) ts),
          days = ds, day_index = dict_comp (map (\<lambda>x. (x, index_of ds x)) ds),
          engine = snd (solve solver (assembled (int (length ts)) (int (length ds)) lp lv
                     (proj Sd ts) s sp (proj2 ad ts ds) (proj md ts) (proj fpd ds)
                     (proj fvd ds) w1 w2 w3 w4))\<rparr>"
proof -
  from assms have d: "distinct ts" "distinct ds"
    and l: "lookups_defined ts ds Sd md ad fpd fvd"
    and v: "valid_input (int (length ts)) (int (length ds)) lp lv (proj Sd ts) s sp
           (proj2 ad ts ds) (proj md ts) (proj fpd ds) (proj fvd ds) w1 w2 w3 w4"
    by (simp_all add: facade_valid_proj)
  have lt: "length (dict_comp (map (\<lambda>x. (x, index_of ts x)) ts)) = length ts"
    using index_table_length [OF index_table_eq, of ts] d by simp
  have ld: "length (dict_comp (map (\<lambda>x. (x, index_of ds x)) ds)) = length ds"
    using index_table_length [OF index_table_eq, of ds] d by simp
  have m: "mapE (py_lookup Sd) ts = Inr (proj Sd ts)" "mapE (py_lookup md) ts = Inr (proj md ts)"
    "mapE (py_lookup fpd) ds = Inr (proj fpd ds)" "mapE (py_lookup fvd) ds = Inr (proj fvd ds)"
    using l unfolding lookups_defined_def proj_def by (simp_all add: mapE_lookup_I)
  have a: "mapE (\<lambda>tutor. mapE (\<lambda>day. bindE (py_lookup ad tutor) (\<lambda>row. py_lookup row day)) ds) ts
      = Inr (proj2 ad ts ds)"
    using l unfolding lookups_defined_def proj2_def by (intro mapE_lookup2_I) blast
  show ?thesis
    unfolding Schedule_init_def
    by (simp add: index_table_eq lt ld m a Model_init_valid [OF v])
qed

lemma Schedule_init_iff:
  "(\<exists>sch. Schedule_init ts ds lp lv s sp Sd md ad fpd fvd w1 w2 w3 w4 solver = Inr sch)
     = facade_valid ts ds lp lv s sp Sd md ad fpd fvd w1 w2 w3 w4"
proof
  assume "\<exists>sch. Schedule_init ts ds lp lv s sp Sd md ad fpd fvd w1 w2 w3 w4 solver = Inr sch"
  then obtain sch where
    "Schedule_init ts ds lp lv s sp Sd md ad fpd fvd w1 w2 w3 w4 solver = Inr sch" ..
  from Schedule_init_Inr [OF this] obtain S m a fp fv where
    dist: "distinct ts" "distinct ds"
    and l: "mapE (py_lookup Sd) ts = Inr S" "mapE (py_lookup md) ts = Inr m"
      "mapE (py_lookup fpd) ds = Inr fp" "mapE (py_lookup fvd) ds = Inr fv"
    and a: "mapE (\<lambda>tutor. mapE (\<lambda>day. bindE (py_lookup ad tutor) (\<lambda>row. py_lookup row day)) ds)
              ts = Inr a"
    and M: "Model_init (int (length ts)) (int (length ds)) lp lv S s sp a m fp fv w1 w2 w3 w4
              solver = (None, engine sch)"
    by blast
  have eqs: "S = proj Sd ts" "m = proj md ts" "fp = proj fpd ds" "fv = proj fvd ds"
    "a = proj2 ad ts ds"
    using mapE_lookup_D(2) [OF l(1)] mapE_lookup_D(2) [OF l(2)] mapE_lookup_D(2) [OF l(3)]
      mapE_lookup_D(2) [OF l(4)] mapE_lookup2_D(2) [OF a]
    by (simp_all add: proj_def proj2_def)
  have "lookups_defined ts ds Sd md ad fpd fvd"
    unfolding lookups_defined_def
    using mapE_lookup_D(1) [OF l(1)] mapE_lookup_D(1) [OF l(2)] mapE_lookup_D(1) [OF l(3)]
      mapE_lookup_D(1) [OF l(4)] mapE_lookup2_D(1) [OF a]
    by blast
  with dist Model_init_success(1) [OF M]
  show "facade_valid ts ds lp lv s sp Sd md ad fpd fvd w1 w2 w3 w4"
    by (simp add: facade_valid_proj eqs)
next
  assume "facade_valid ts ds lp lv s sp Sd md ad fpd fvd w1 w2 w3 w4"
  from Schedule_init_valid [OF this]
  show "\<exists>sch. Schedule_init ts ds lp lv s sp Sd md ad fpd fvd w1 w2 w3 w4 solver = Inr sch"
    by blast
qed



lemma small_test_valid:
  "facade_valid small_tutors small_days 0 0 0 0 small_max_shifts small_mode_preference
     small_availability small_ip_fractions small_v_fractions 1 1 1 100"
  by (simp add: facade_valid_def small_tutors_def small_days_def small_max_shifts_def
      small_mode_preference_def small_availability_def small_ip_fractions_def
      small_v_fractions_def is_level_def is_mode_pref_def fraction_sum_ok_examples
      NOT_PREFERRED_def PREFERRED_def UNAVAILABLE_def PREFER_VIRTUAL_def NO_PREFERENCE_def
      PREFER_IN_PERSON_def)





subsection \<open>Where a rejected input leaves the engine\<close>

lemma var_matrix_nonempty:
  "0 < NT \<Longrightarrow> 0 < ND \<Longrightarrow> concat (var_matrix mk NT ND) \<noteq> []"
  by (simp add: var_matrix_def py_range_def upt_conv_Cons)

lemma var_matrix_nonempty_row:
  "0 < NT \<Longrightarrow> 0 < ND \<Longrightarrow> \<exists>row \<in> set (var_matrix mk NT ND). row \<noteq> []"
  using var_matrix_nonempty [of NT ND mk] by simp

lemma fields_fresh:
  "vars (model (fresh NT ND)) = []" "constrs (model (fresh NT ND)) = []"
  "objective (model (fresh NT ND)) = None" "grb_status (model (fresh NT ND)) = GRB_LOADED"
  "status (fresh NT ND) = LOADING"
  by (simp_all add: fresh_def grb_new_def)

lemma fields_with_vars:
  "vars (model (with_vars NT ND)) = concat (var_matrix XP NT ND) @ concat (var_matrix XV NT ND)"
  "constrs (model (with_vars NT ND)) = []"
  "objective (model (with_vars NT ND)) = None"
  "grb_status (model (with_vars NT ND)) = GRB_LOADED"
  "status (with_vars NT ND) = LOADING"
  by (simp_all add: with_vars_def fresh_def grb_new_def)

lemma fields_with_constrs:
  "vars (model (with_constrs NT ND lp lv S s sp a))
     = concat (var_matrix XP NT ND) @ concat (var_matrix XV NT ND)"
  "constrs (model (with_constrs NT ND lp lv S s sp a)) = all_constrs NT ND lp lv s sp S a"
  "objective (model (with_constrs NT ND lp lv S s sp a)) = None"
  "grb_status (model (with_constrs NT ND lp lv S s sp a)) = GRB_LOADED"
  "status (with_constrs NT ND lp lv S s sp a) = LOADING"
  by (simp_all add: with_constrs_def add_constrs_def with_vars_def fresh_def grb_new_def)

text \<open>
  C3, as the code has it. For every construction input that violates a shape or range
  constraint, or whose fraction vectors fail the constructor's own test (the sum test
  \<^verbatim>\<open>abs(1-sum(fp)-sum(fv)) < epsilon\<close> evaluated in double precision), the constructor
  raises an assertion error (which carries no message)
  before the objective is set and before the solver runs. The failure precedes the
  creation of the decision variables only when \<open>N_T \<le> 0\<close> or \<open>N_D \<le> 0\<close>: otherwise
  both matrices of variables exist when it is raised, and when the violation is in
  \<open>m\<close>, \<open>fp\<close>, \<open>fv\<close> or a weight, all hard constraints have been added as well.
\<close>

theorem validation_failure_point:
  assumes "\<not> valid_input NT ND lp lv S s sp a m fp fv w1 w2 w3 w4"
  shows "\<exists>M. Model_init NT ND lp lv S s sp a m fp fv w1 w2 w3 w4 solver
                = (Some AssertionError, M)
     \<and> status M = LOADING \<and> objective (model M) = None \<and> grb_status (model M) = GRB_LOADED
     \<and> vars (model M) = (if 0 < NT \<and> 0 < ND
          then concat (var_matrix XP NT ND) @ concat (var_matrix XV NT ND) else [])
     \<and> (vars (model M) = []) = (\<not> (0 < NT \<and> 0 < ND))
     \<and> constrs (model M) = (if 0 < NT \<and> 0 < ND \<and> constraints_args_ok NT ND lp lv s sp S a
          then all_constrs NT ND lp lv s sp S a else [])"
proof (cases "0 < NT \<and> 0 < ND")
  case False
  then have n: "(0 < NT \<and> 0 < ND) = False" by simp
  have n': "(0 < NT \<and> 0 < ND \<and> constraints_args_ok NT ND lp lv s sp S a) = False"
    using False by blast
  show ?thesis
    unfolding Model_init_eq n n' by (simp add: fields_fresh)
next
  case pos: True
  show ?thesis
  proof (cases "constraints_args_ok NT ND lp lv s sp S a")
    case False
    then show ?thesis
      using pos by (simp add: Model_init_eq fields_with_vars var_matrix_nonempty_row)
  next
    case True
    then have "\<not> objective_args_ok NT ND m fp fv w1 w2 w3 w4"
      using assms pos by (simp add: valid_input_def)
    then show ?thesis
      using pos True by (simp add: Model_init_eq fields_with_constrs var_matrix_nonempty_row)
  qed
qed

theorem validation_failure_point_witness:
  "\<not> valid_input 1 1 0 0 [1] 0 0 [[1]] [0] [1 / 2] [1 / 2] 1 (- 1) 1 1
   \<and> (\<exists>M. Model_init 1 1 0 0 [1] 0 0 [[1]] [0] [1 / 2] [1 / 2] 1 (- 1) 1 1 no_solution
             = (Some AssertionError, M)
          \<and> vars (model M) = [XP 0 0, XV 0 0] \<and> length (constrs (model M)) = 6
          \<and> objective (model M) = None)"
proof -
  have bad: "\<not> valid_input 1 1 0 0 [1] 0 0 [[1]] [0] [1 / 2] [1 / 2] 1 (- 1) 1 1"
    by (simp add: valid_input_def objective_args_ok_def)
  have ok: "constraints_args_ok 1 1 0 0 0 0 [1] [[1]]"
    by (simp add: constraints_args_ok_def is_level_def PREFERRED_def)
  from validation_failure_point [OF bad, of no_solution] bad ok show ?thesis
    by (auto simp add: var_matrix_def py_range_def all_constrs_def tutor_constrs_def
        coverage_constrs_def day_constrs_def UNAVAILABLE_def)
qed

text \<open>
  C3 as the specification states it fails: with \<open>S\<close> of the wrong length the
  constructor raises only after the variables \<^verbatim>\<open>xp_(0,0)\<close> and \<^verbatim>\<open>xv_(0,0)\<close> have been
  created.
\<close>

theorem validation_before_variables_counterexample:
  "\<not> valid_input 1 1 0 0 [] 0 0 [[1]] [0] [1 / 2] [1 / 2] 1 1 1 1
   \<and> fst (Model_init 1 1 0 0 [] 0 0 [[1]] [0] [1 / 2] [1 / 2] 1 1 1 1 no_solution)
       = Some AssertionError
   \<and> vars (model (snd (Model_init 1 1 0 0 [] 0 0 [[1]] [0] [1 / 2] [1 / 2] 1 1 1 1
                         no_solution))) = [XP 0 0, XV 0 0]"
  by (simp add: Model_init_eq valid_input_def constraints_args_ok_def fields_with_vars
      var_matrix_def py_range_def)

subsection \<open>The assertion of the indexer\<close>

lemma py_subscript_no_assert: "py_subscript x sl \<noteq> Inl AssertionError"
  by (cases x; cases sl) simp_all

lemma mapE_Inl_D: "mapE f xs = Inl e \<Longrightarrow> \<exists>x \<in> set xs. f x = Inl e"
  by (induction xs) (auto split: sum.splits)

lemma filterE_Inl_D: "filterE p xs = Inl e \<Longrightarrow> \<exists>x \<in> set xs. p x = Inl e"
  by (induction xs) (auto split: sum.splits)

lemma getitem_no_assert:
  assumes "mode = IN_PERSON \<or> mode = VIRTUAL"
  shows "getitem self (mode, tsel, dsel) \<noteq> Inl AssertionError"
proof
  assume a: "getitem self (mode, tsel, dsel) = Inl AssertionError"
  have m: "mapE (\<lambda>row. py_subscript row dsel) rs \<noteq> Inl AssertionError" for rs :: "var nested list"
    using mapE_Inl_D [of "\<lambda>row. py_subscript row dsel" rs AssertionError]
    by (auto simp add: py_subscript_no_assert)
  from a assms show False
    using py_subscript_no_assert [of "xp self" tsel] py_subscript_no_assert [of "xv self" tsel]
    by (auto simp add: getitem_def py_subscript_no_assert m
        split: if_splits sum.splits nested.splits list.splits)
qed

lemma is_one_no_assert: "is_one it \<noteq> Inl AssertionError"
  by (cases it rule: is_one.cases) simp_all

lemma bindE_Inl_D: "bindE r f = Inl e \<Longrightarrow> r = Inl e \<or> (\<exists>x. r = Inr x \<and> f x = Inl e)"
  by (cases r) simp_all

lemma works_no_assert:
  assumes "mode = IN_PERSON \<or> mode = VIRTUAL"
  shows "works sch mode t d \<noteq> Inl AssertionError"
  using getitem_no_assert [OF assms] is_one_no_assert
  by (auto simp add: works_def dest!: bindE_Inl_D)

lemma works_mode_no_assert: "works_mode sch mode t d \<noteq> Inl AssertionError"
  using works_no_assert [of IN_PERSON sch t d] works_no_assert [of VIRTUAL sch t d]
  by (auto simp add: works_mode_def dest!: bindE_Inl_D split: if_splits)

lemma py_lookup_no_assert: "py_lookup f k \<noteq> Inl AssertionError"
  by (simp add: py_lookup_def split: option.splits)

lemma check_no_assert: "check sch mode tutor day \<noteq> Inl AssertionError"
  by (auto simp add: works_mode_no_assert py_lookup_no_assert check_def guard_def validate_mode_def validate_tutor_def validate_day_def
      validate_schedule_def dest!: bindE_Inl_D split: if_splits option.splits)

lemma get_tutor_schedule_no_assert: "get_tutor_schedule sch mode tutor \<noteq> Inl AssertionError"
  by (auto simp add: works_mode_no_assert py_lookup_no_assert get_tutor_schedule_def guard_def validate_mode_def validate_tutor_def
      validate_schedule_def dest!: bindE_Inl_D filterE_Inl_D split: if_splits option.splits)

lemma get_day_schedule_no_assert: "get_day_schedule sch mode day \<noteq> Inl AssertionError"
  by (auto simp add: works_mode_no_assert py_lookup_no_assert get_day_schedule_def guard_def validate_mode_def validate_day_def
      validate_schedule_def dest!: bindE_Inl_D filterE_Inl_D split: if_splits option.splits)

subsection \<open>The status after construction\<close>

lemma Schedule_init_solved:
  assumes "Schedule_init ts ds lp lv s sp Sd md ad fpd fvd w1 w2 w3 w4 solver = Inr sch"
  shows "\<exists>g. OutputFlag g = False \<and> vars g = vars (model (engine sch))
     \<and> constrs g = constrs (model (engine sch)) \<and> objective g = objective (model (engine sch))
     \<and> grb_status (model (engine sch)) = fst (solver g)
     \<and> X (model (engine sch)) = snd (solver g)
     \<and> status (engine sch) = (if fst (solver g) = GRB_OPTIMAL then OPTIMAL else INFEASIBLE)"
proof -
  from Schedule_init_Inr [OF assms] obtain S m a fp fv where
    M: "Model_init (int (length ts)) (int (length ds)) lp lv S s sp a m fp fv w1 w2 w3 w4
              solver = (None, engine sch)"
    by blast
  let ?g = "submitted (int (length ts)) (int (length ds)) lp lv S s sp a m fp fv w1 w2 w3 w4"
  have e: "engine sch = snd (solve solver
      (assembled (int (length ts)) (int (length ds)) lp lv S s sp a m fp fv w1 w2 w3 w4))"
    by (rule Model_init_success(2) [OF M])
  have "OutputFlag ?g = False" "vars ?g = vars (model (engine sch))"
    "constrs ?g = constrs (model (engine sch))" "objective ?g = objective (model (engine sch))"
    unfolding e by (simp_all add: submitted_def solve_def Let_def optimize_def)
  moreover have "grb_status (model (engine sch)) = fst (solver ?g)"
    "X (model (engine sch)) = snd (solver ?g)"
    "status (engine sch) = (if fst (solver ?g) = GRB_OPTIMAL then OPTIMAL else INFEASIBLE)"
    unfolding e by (simp_all add: solved_fields)
  ultimately show ?thesis by blast
qed

lemma small_test_built:
  "\<exists>sch. Schedule_init small_tutors small_days 0 0 0 0 small_max_shifts small_mode_preference
     small_availability small_ip_fractions small_v_fractions 1 1 1 100 solver = Inr sch"
  using small_test_valid by (simp add: Schedule_init_iff)

lemma py_int_simps [simp]: "py_int 0 = 0" "py_int 1 = 1"
  by (simp_all add: py_int_def)

lemma small_test_optimum:
  assumes "Schedule_init small_tutors small_days 0 0 0 0 small_max_shifts small_mode_preference
     small_availability small_ip_fractions small_v_fractions 1 1 1 100 small_optimum = Inr sch"
  shows "schedule_found sch" "status (engine sch) = OPTIMAL"
    "assigned sch mode t d =
       (if mode = IN_PERSON then t = 2 \<and> d = 1 else if mode = VIRTUAL then t < 2
        else (t = 2 \<and> d = 1) \<or> t < 2)"
proof -
  from Schedule_init_solved [OF assms] obtain g where
    g: "X (model (engine sch)) = snd (small_optimum g)"
    "status (engine sch) = (if fst (small_optimum g) = GRB_OPTIMAL then OPTIMAL else INFEASIBLE)"
    by blast
  show "status (engine sch) = OPTIMAL"
    using g(2) by (simp add: small_optimum_def)
  then show "schedule_found sch"
    by (simp add: schedule_found_def)
  show "assigned sch mode t d =
       (if mode = IN_PERSON then t = 2 \<and> d = 1 else if mode = VIRTUAL then t < 2
        else (t = 2 \<and> d = 1) \<or> t < 2)"
    by (simp add: assigned_def g(1) small_optimum_def)
qed

lemma small_test_infeasible:
  assumes "Schedule_init small_tutors small_days 0 0 0 0 small_max_shifts small_mode_preference
     small_availability small_ip_fractions small_v_fractions 1 1 1 100 no_solution = Inr sch"
  shows "grb_status (model (engine sch)) = GRB_INFEASIBLE" "status (engine sch) = INFEASIBLE"
proof -
  from Schedule_init_solved [OF assms] obtain g where
    "grb_status (model (engine sch)) = fst (no_solution g)"
    "status (engine sch) = (if fst (no_solution g) = GRB_OPTIMAL then OPTIMAL else INFEASIBLE)"
    by blast
  then show "grb_status (model (engine sch)) = GRB_INFEASIBLE" "status (engine sch) = INFEASIBLE"
    by (simp_all add: no_solution_def GRB_INFEASIBLE_def GRB_OPTIMAL_def)
qed

lemma EITHER_simps [simp]: "EITHER \<noteq> IN_PERSON" "EITHER \<noteq> VIRTUAL"
  by (simp_all add: EITHER_def IN_PERSON_def VIRTUAL_def)

text \<open>
  C10. The indexer raises its assertion for every mode other than \<^verbatim>\<open>IN_PERSON\<close> and
  \<^verbatim>\<open>VIRTUAL\<close>, in particular for the facade's \<^verbatim>\<open>EITHER\<close>; for the two accepted modes it
  returns \<^verbatim>\<open>None\<close> for every pair of selectors when the status is infeasible. The three
  queries of the facade never end in that assertion, whatever the facade object and the
  arguments: the either-mode condition is the first single-mode lookup, or else the
  second, so it is the disjunction of the two when both return.
\<close>

theorem indexer_assertion_unreachable:
  "(\<not> (mode = IN_PERSON \<or> mode = VIRTUAL) \<longrightarrow>
      getitem self (mode, tsel, dsel) = Inl AssertionError)
   \<and> getitem self (EITHER, tsel, dsel) = Inl AssertionError
   \<and> ((mode = IN_PERSON \<or> mode = VIRTUAL) \<and> status self = INFEASIBLE \<longrightarrow>
      getitem self (mode, tsel, dsel) = Inr PyNone)
   \<and> check sch md tutor day \<noteq> Inl AssertionError
   \<and> get_tutor_schedule sch md tutor \<noteq> Inl AssertionError
   \<and> get_day_schedule sch md day \<noteq> Inl AssertionError
   \<and> works_mode sch EITHER t d
       = bindE (works sch IN_PERSON t d) (\<lambda>b. if b then Inr True else works sch VIRTUAL t d)
   \<and> (works sch IN_PERSON t d = Inr bp \<and> works sch VIRTUAL t d = Inr bv \<longrightarrow>
      works_mode sch EITHER t d = Inr (bp \<or> bv))"
  by (auto simp add: getitem_def check_no_assert get_tutor_schedule_no_assert
      get_day_schedule_no_assert works_mode_def)

theorem indexer_assertion_unreachable_witness:
  "(\<exists>sch. Schedule_init small_tutors small_days 0 0 0 0 small_max_shifts small_mode_preference
       small_availability small_ip_fractions small_v_fractions 1 1 1 100 no_solution = Inr sch
     \<and> getitem (engine sch) (3, Idx 0, Idx 0) = Inl AssertionError
     \<and> getitem (engine sch) (VIRTUAL, Slice None None, Idx 7) = Inr PyNone)
   \<and> (\<exists>sch. Schedule_init small_tutors small_days 0 0 0 0 small_max_shifts
       small_mode_preference small_availability small_ip_fractions small_v_fractions
       1 1 1 100 small_optimum = Inr sch
     \<and> works_mode sch EITHER 2 1 = Inr True)"
proof
  from small_test_built [of no_solution] obtain sch where
    sch: "Schedule_init small_tutors small_days 0 0 0 0 small_max_shifts small_mode_preference
       small_availability small_ip_fractions small_v_fractions 1 1 1 100 no_solution = Inr sch"
    by blast
  have "getitem (engine sch) (3, Idx 0, Idx 0) = Inl AssertionError"
    using indexer_assertion_unreachable [of 3 "engine sch" "Idx 0" "Idx 0"]
    by (simp add: IN_PERSON_def VIRTUAL_def)
  moreover have "getitem (engine sch) (VIRTUAL, Slice None None, Idx 7) = Inr PyNone"
    using indexer_assertion_unreachable [of VIRTUAL "engine sch" "Slice None None" "Idx 7"]
      small_test_infeasible(2) [OF sch]
    by simp
  ultimately show "\<exists>sch. Schedule_init small_tutors small_days 0 0 0 0 small_max_shifts
       small_mode_preference small_availability small_ip_fractions small_v_fractions
       1 1 1 100 no_solution = Inr sch
     \<and> getitem (engine sch) (3, Idx 0, Idx 0) = Inl AssertionError
     \<and> getitem (engine sch) (VIRTUAL, Slice None None, Idx 7) = Inr PyNone"
    using sch by blast
next
  from small_test_built [of small_optimum] obtain sch where
    sch: "Schedule_init small_tutors small_days 0 0 0 0 small_max_shifts small_mode_preference
       small_availability small_ip_fractions small_v_fractions 1 1 1 100 small_optimum = Inr sch"
    by blast
  have inv: "facade_inv sch" and td: "tutors sch = small_tutors" "days sch = small_days"
    using Schedule_init_inv [OF sch] by simp_all
  have w: "works sch IN_PERSON 2 1 = Inr True" "works sch VIRTUAL 2 1 = Inr False"
    using works_optimal [OF inv small_test_optimum(2) [OF sch], of 2 1]
    by (simp_all add: td small_tutors_def small_days_def small_test_optimum(3) [OF sch])
  have "works_mode sch EITHER 2 1 = Inr True"
    using indexer_assertion_unreachable [where sch = sch and t = 2 and d = 1 and bp = True
        and bv = False] w
    by simp
  then show "\<exists>sch. Schedule_init small_tutors small_days 0 0 0 0 small_max_shifts
       small_mode_preference small_availability small_ip_fractions small_v_fractions
       1 1 1 100 small_optimum = Inr sch
     \<and> works_mode sch EITHER 2 1 = Inr True"
    using sch by blast
qed

text \<open>
  C4. On a constructed facade, each of \<^verbatim>\<open>check\<close>, \<^verbatim>\<open>get_tutor_schedule\<close> and
  \<^verbatim>\<open>get_day_schedule\<close> raises if and only if the mode is not one of the three accepted
  values, or an identifier it is given is not recognized, or the status is not optimal;
  \<^verbatim>\<open>schedule_found\<close> is a total function and is true exactly when the status is optimal.
\<close>

theorem queries_fail_iff:
  assumes "Schedule_init ts ds lp lv s sp Sd md ad fpd fvd w1 w2 w3 w4 solver = Inr sch"
  shows "((\<exists>e. check sch mode tutor day = Inl e) =
            (\<not> (mode = IN_PERSON \<or> mode = VIRTUAL \<or> mode = EITHER)
             \<or> tutor \<notin> set ts \<or> day \<notin> set ds \<or> status (engine sch) \<noteq> OPTIMAL))
     \<and> ((\<exists>e. get_tutor_schedule sch mode tutor = Inl e) =
            (\<not> (mode = IN_PERSON \<or> mode = VIRTUAL \<or> mode = EITHER)
             \<or> tutor \<notin> set ts \<or> status (engine sch) \<noteq> OPTIMAL))
     \<and> ((\<exists>e. get_day_schedule sch mode day = Inl e) =
            (\<not> (mode = IN_PERSON \<or> mode = VIRTUAL \<or> mode = EITHER)
             \<or> day \<notin> set ds \<or> status (engine sch) \<noteq> OPTIMAL))
     \<and> schedule_found sch = (status (engine sch) = OPTIMAL)"
proof -
  have inv: "facade_inv sch" and td: "tutors sch = ts" "days sch = ds"
    using Schedule_init_inv [OF assms] by simp_all
  show ?thesis
    unfolding check_eq [OF inv] get_tutor_schedule_eq [OF inv] get_day_schedule_eq [OF inv] td
    by (simp add: schedule_found_def)
qed

theorem queries_fail_iff_witness:
  "\<exists>sch. Schedule_init small_tutors small_days 0 0 0 0 small_max_shifts small_mode_preference
       small_availability small_ip_fractions small_v_fractions 1 1 1 100 small_optimum = Inr sch
     \<and> schedule_found sch
     \<and> (\<exists>e. check sch 7 ''Adem'' ''Sun'' = Inl e)
     \<and> (\<exists>e. check sch VIRTUAL ''Dora'' ''Sun'' = Inl e)
     \<and> (\<exists>e. get_day_schedule sch EITHER ''Tue'' = Inl e)
     \<and> \<not> (\<exists>e. check sch EITHER ''Adem'' ''Sun'' = Inl e)
     \<and> \<not> (\<exists>e. get_tutor_schedule sch IN_PERSON ''Chel'' = Inl e)"
proof -
  from small_test_built [of small_optimum] obtain sch where
    sch: "Schedule_init small_tutors small_days 0 0 0 0 small_max_shifts small_mode_preference
       small_availability small_ip_fractions small_v_fractions 1 1 1 100 small_optimum = Inr sch"
    by blast
  note q = queries_fail_iff [OF sch] and opt = small_test_optimum(2) [OF sch]
  have "schedule_found sch"
    using q [of 0] opt by simp
  moreover have "\<exists>e. check sch 7 ''Adem'' ''Sun'' = Inl e"
    using q [of 7 "''Adem''" "''Sun''"] by (simp add: IN_PERSON_def VIRTUAL_def EITHER_def)
  moreover have "\<exists>e. check sch VIRTUAL ''Dora'' ''Sun'' = Inl e"
    using q [of VIRTUAL "''Dora''" "''Sun''"] by (simp add: small_tutors_def)
  moreover have "\<exists>e. get_day_schedule sch EITHER ''Tue'' = Inl e"
    using q [of EITHER _ "''Tue''"] by (simp add: small_days_def)
  moreover have "\<not> (\<exists>e. check sch EITHER ''Adem'' ''Sun'' = Inl e)"
    using q [of EITHER "''Adem''" "''Sun''"] opt by (simp add: small_tutors_def small_days_def)
  moreover have "\<not> (\<exists>e. get_tutor_schedule sch IN_PERSON ''Chel'' = Inl e)"
    using q [of IN_PERSON "''Chel''"] opt by (simp add: small_tutors_def)
  ultimately show ?thesis using sch by blast
qed

text \<open>
  C5. After a successful construction the solver has been run once, silently, on the
  assembled program, and the status is optimal exactly when the solver's status code is
  its \<^verbatim>\<open>OPTIMAL\<close>; for every other code the status is infeasible, \<^verbatim>\<open>schedule_found\<close>
  returns false, and each of \<^verbatim>\<open>check\<close>, \<^verbatim>\<open>get_tutor_schedule\<close> and \<^verbatim>\<open>get_day_schedule\<close>
  raises \<^verbatim>\<open>Exception\<close> with a message, whatever its arguments.
\<close>

theorem infeasibility_is_reported:
  assumes "Schedule_init ts ds lp lv s sp Sd md ad fpd fvd w1 w2 w3 w4 solver = Inr sch"
  shows "(\<exists>g. OutputFlag g = False \<and> vars g = vars (model (engine sch))
            \<and> constrs g = constrs (model (engine sch))
            \<and> objective g = objective (model (engine sch))
            \<and> grb_status (model (engine sch)) = fst (solver g))
     \<and> (status (engine sch) = OPTIMAL) = (grb_status (model (engine sch)) = GRB_OPTIMAL)
     \<and> (grb_status (model (engine sch)) \<noteq> GRB_OPTIMAL \<longrightarrow>
           status (engine sch) = INFEASIBLE \<and> schedule_found sch = False
           \<and> (\<exists>msg. check sch mode tutor day = Inl (Exception msg))
           \<and> (\<exists>msg. get_tutor_schedule sch mode tutor = Inl (Exception msg))
           \<and> (\<exists>msg. get_day_schedule sch mode day = Inl (Exception msg)))"
proof -
  have inv: "facade_inv sch"
    using Schedule_init_inv [OF assms] by simp
  from Schedule_init_solved [OF assms] obtain g where
    g: "OutputFlag g = False" "vars g = vars (model (engine sch))"
    "constrs g = constrs (model (engine sch))" "objective g = objective (model (engine sch))"
    "grb_status (model (engine sch)) = fst (solver g)"
    "status (engine sch) = (if fst (solver g) = GRB_OPTIMAL then OPTIMAL else INFEASIBLE)"
    by blast
  have st: "status (engine sch)
      = (if grb_status (model (engine sch)) = GRB_OPTIMAL then OPTIMAL else INFEASIBLE)"
    using g(5,6) by simp
  have 1: "\<exists>g. OutputFlag g = False \<and> vars g = vars (model (engine sch))
            \<and> constrs g = constrs (model (engine sch))
            \<and> objective g = objective (model (engine sch))
            \<and> grb_status (model (engine sch)) = fst (solver g)"
    using g by blast
  have 2: "(status (engine sch) = OPTIMAL) = (grb_status (model (engine sch)) = GRB_OPTIMAL)"
    using st by simp
  have 3: "status (engine sch) = INFEASIBLE \<and> schedule_found sch = False
           \<and> (\<exists>msg. check sch mode tutor day = Inl (Exception msg))
           \<and> (\<exists>msg. get_tutor_schedule sch mode tutor = Inl (Exception msg))
           \<and> (\<exists>msg. get_day_schedule sch mode day = Inl (Exception msg))"
    if "grb_status (model (engine sch)) \<noteq> GRB_OPTIMAL"
    unfolding check_eq [OF inv] get_tutor_schedule_eq [OF inv] get_day_schedule_eq [OF inv]
    using that st by (simp add: schedule_found_def)
  from 1 2 3 show ?thesis by blast
qed

theorem infeasibility_is_reported_witness:
  "\<exists>sch. Schedule_init small_tutors small_days 0 0 0 0 small_max_shifts small_mode_preference
       small_availability small_ip_fractions small_v_fractions 1 1 1 100 no_solution = Inr sch
     \<and> status (engine sch) = INFEASIBLE \<and> schedule_found sch = False
     \<and> (\<exists>msg. check sch IN_PERSON ''Adem'' ''Sun'' = Inl (Exception msg))
     \<and> (\<exists>msg. get_tutor_schedule sch EITHER ''Chel'' = Inl (Exception msg))
     \<and> (\<exists>msg. get_day_schedule sch VIRTUAL ''Mon'' = Inl (Exception msg))"
proof -
  from small_test_built [of no_solution] obtain sch where
    sch: "Schedule_init small_tutors small_days 0 0 0 0 small_max_shifts small_mode_preference
       small_availability small_ip_fractions small_v_fractions 1 1 1 100 no_solution = Inr sch"
    by blast
  have "grb_status (model (engine sch)) \<noteq> GRB_OPTIMAL"
    using small_test_infeasible(1) [OF sch] by (simp add: GRB_INFEASIBLE_def GRB_OPTIMAL_def)
  with infeasibility_is_reported [OF sch, of IN_PERSON "''Adem''" "''Sun''"]
    infeasibility_is_reported [OF sch, of EITHER "''Chel''"]
    infeasibility_is_reported [OF sch, of VIRTUAL _ "''Mon''"] sch
  show ?thesis by blast
qed

text \<open>
  C7. On a facade with an optimal result and for a recognized tutor, the three schedule
  queries return, the days of the either-mode schedule are the days of the in-person
  schedule together with those of the virtual one, and they are exactly the days for
  which \<^verbatim>\<open>check\<close> with the either-mode returns true.
\<close>

theorem either_schedule_roundtrip:
  assumes "Schedule_init ts ds lp lv s sp Sd md ad fpd fvd w1 w2 w3 w4 solver = Inr sch"
    and "schedule_found sch" and "tutor \<in> set ts"
  shows "\<exists>es ps vs. get_tutor_schedule sch EITHER tutor = Inr es
     \<and> get_tutor_schedule sch IN_PERSON tutor = Inr ps
     \<and> get_tutor_schedule sch VIRTUAL tutor = Inr vs
     \<and> set es = set ps \<union> set vs
     \<and> set es = {day. check sch EITHER tutor day = Inr True}"
proof -
  have inv: "facade_inv sch" and td: "tutors sch = ts" "days sch = ds"
    using Schedule_init_inv [OF assms(1)] by simp_all
  let ?t = "index_of ts tutor"
  let ?f = "\<lambda>mode. filter (\<lambda>day. assigned sch mode ?t (index_of ds day)) ds"
  have g: "get_tutor_schedule sch EITHER tutor = Inr (?f EITHER)"
    "get_tutor_schedule sch IN_PERSON tutor = Inr (?f IN_PERSON)"
    "get_tutor_schedule sch VIRTUAL tutor = Inr (?f VIRTUAL)"
    unfolding get_tutor_schedule_eq [OF inv] td using assms(2,3) by simp_all
  have u: "set (?f EITHER) = set (?f IN_PERSON) \<union> set (?f VIRTUAL)"
    by (auto simp add: assigned_def)
  have c: "set (?f EITHER) = {day. check sch EITHER tutor day = Inr True}"
    unfolding check_eq [OF inv] td using assms(2,3) by auto
  from g u c show ?thesis by blast
qed

theorem either_schedule_roundtrip_witness:
  "\<exists>sch. Schedule_init small_tutors small_days 0 0 0 0 small_max_shifts small_mode_preference
       small_availability small_ip_fractions small_v_fractions 1 1 1 100 small_optimum = Inr sch
     \<and> schedule_found sch \<and> ''Chel'' \<in> set small_tutors
     \<and> (\<exists>es. get_tutor_schedule sch EITHER ''Chel'' = Inr es
           \<and> set es = {day. check sch EITHER ''Chel'' day = Inr True})"
proof -
  from small_test_built [of small_optimum] obtain sch where
    sch: "Schedule_init small_tutors small_days 0 0 0 0 small_max_shifts small_mode_preference
       small_availability small_ip_fractions small_v_fractions 1 1 1 100 small_optimum = Inr sch"
    by blast
  have found: "schedule_found sch" by (rule small_test_optimum(1) [OF sch])
  have mem: "''Chel'' \<in> set small_tutors" by (simp add: small_tutors_def)
  from either_schedule_roundtrip [OF sch found mem] sch found mem show ?thesis by blast
qed

text \<open>
  C8. On a facade with an optimal result and for an accepted mode,
  \<^verbatim>\<open>get_tutor_schedule\<close> of a recognized tutor is the facade's day list, in its order,
  restricted to the days on which the solver's values assign the tutor under the mode
  (under at least one of the two modes for the either-mode); \<^verbatim>\<open>get_day_schedule\<close> of a
  recognized day is the tutor list restricted in the same way; and \<^verbatim>\<open>check\<close> returns
  that same assignment.
\<close>

theorem schedules_are_ordered_selections:
  assumes "Schedule_init ts ds lp lv s sp Sd md ad fpd fvd w1 w2 w3 w4 solver = Inr sch"
    and "schedule_found sch" and "mode = IN_PERSON \<or> mode = VIRTUAL \<or> mode = EITHER"
  shows "(tutor \<in> set ts \<longrightarrow> get_tutor_schedule sch mode tutor
            = Inr (filter (\<lambda>day. assigned sch mode (index_of ts tutor) (index_of ds day)) ds))
     \<and> (day \<in> set ds \<longrightarrow> get_day_schedule sch mode day
            = Inr (filter (\<lambda>tutor. assigned sch mode (index_of ts tutor) (index_of ds day)) ts))
     \<and> (tutor \<in> set ts \<and> day \<in> set ds \<longrightarrow> check sch mode tutor day
            = Inr (assigned sch mode (index_of ts tutor) (index_of ds day)))"
proof -
  have inv: "facade_inv sch" and td: "tutors sch = ts" "days sch = ds"
    using Schedule_init_inv [OF assms(1)] by simp_all
  show ?thesis
    unfolding check_eq [OF inv] get_tutor_schedule_eq [OF inv] get_day_schedule_eq [OF inv] td
    using assms(2,3) by simp
qed

theorem schedules_are_ordered_selections_witness:
  "\<exists>sch. Schedule_init small_tutors small_days 0 0 0 0 small_max_shifts small_mode_preference
       small_availability small_ip_fractions small_v_fractions 1 1 1 100 small_optimum = Inr sch
     \<and> schedule_found sch
     \<and> get_tutor_schedule sch VIRTUAL ''Adem'' = Inr [''Sun'', ''Mon'']
     \<and> get_tutor_schedule sch IN_PERSON ''Chel'' = Inr [''Mon'']
     \<and> get_day_schedule sch EITHER ''Mon'' = Inr [''Adem'', ''Bebby'', ''Chel'']
     \<and> get_day_schedule sch IN_PERSON ''Sun'' = Inr []
     \<and> check sch EITHER ''Chel'' ''Sun'' = Inr False"
proof -
  from small_test_built [of small_optimum] obtain sch where
    sch: "Schedule_init small_tutors small_days 0 0 0 0 small_max_shifts small_mode_preference
       small_availability small_ip_fractions small_v_fractions 1 1 1 100 small_optimum = Inr sch"
    by blast
  have found: "schedule_found sch" by (rule small_test_optimum(1) [OF sch])
  note sel = schedules_are_ordered_selections [OF sch found]
    and a = small_test_optimum(3) [OF sch]
  have "get_tutor_schedule sch VIRTUAL ''Adem'' = Inr [''Sun'', ''Mon'']"
    using sel [of VIRTUAL "''Adem''"] by (simp add: a small_tutors_def small_days_def)
  moreover have "get_tutor_schedule sch IN_PERSON ''Chel'' = Inr [''Mon'']"
    using sel [of IN_PERSON "''Chel''"] by (simp add: a small_tutors_def small_days_def)
  moreover have "get_day_schedule sch EITHER ''Mon'' = Inr [''Adem'', ''Bebby'', ''Chel'']"
    using sel [of EITHER _ "''Mon''"] by (simp add: a small_tutors_def small_days_def)
  moreover have "get_day_schedule sch IN_PERSON ''Sun'' = Inr []"
    using sel [of IN_PERSON _ "''Sun''"] by (simp add: a small_tutors_def small_days_def)
  moreover have "check sch EITHER ''Chel'' ''Sun'' = Inr False"
    using sel [of EITHER "''Chel''" "''Sun''"] by (simp add: a small_tutors_def small_days_def)
  ultimately show ?thesis using sch found by blast
qed

end
